theory Spec2Isabelle
  imports Main "HOL-Library.Multiset" "HOL-Library.Char_ord" "HOL-Library.List_Lexorder"
begin

section \<open>JavaScript strings and values\<close>

text \<open>
  The gallery client (\<^verbatim>\<open>js/danbooru_gallery/danbooru_gallery.js\<close>) works on JavaScript
  strings. A string is modelled as a \<^typ>\<open>string\<close>, one \<^typ>\<open>char\<close> per code unit, for the
  code units 0 to 255. In that range the characters matched by the regular expression
  class \<^verbatim>\<open>\s\<close>, which are also the ones removed by \<^verbatim>\<open>trim()\<close>, are the code units
  9 to 13, 32 and 160.
\<close>

definition isSpace :: "char \<Rightarrow> bool" where
  "isSpace c = (of_char c \<in> {9, 10, 11, 12, 13, 32, 160 :: nat})"

text \<open>\<^verbatim>\<open>s.trim()\<close>\<close>

definition trim :: "string \<Rightarrow> string" where
  "trim s = rev (dropWhile isSpace (rev (dropWhile isSpace s)))"

text \<open>
  \<^verbatim>\<open>s.split(/\s+/)\<close>: the string is cut at every maximal run of whitespace; a run at
  the start or at the end leaves an empty piece there, and the empty string gives one
  empty piece.
\<close>

function splitWs :: "string \<Rightarrow> string \<Rightarrow> string list" where
  "splitWs cur [] = [cur]"
| "splitWs cur (c # cs) =
     (if isSpace c then cur # splitWs [] (dropWhile isSpace cs)
      else splitWs (cur @ [c]) cs)"
  by pat_completeness auto
termination
  by (relation "measure (\<lambda>(cur, s). length s)")
     (auto simp: length_dropWhile_le less_Suc_eq_le)

text \<open>\<^verbatim>\<open>s.split(sep)\<close> for a separator \<^verbatim>\<open>sep\<close> of one character.\<close>

fun splitChar :: "char \<Rightarrow> string \<Rightarrow> string \<Rightarrow> string list" where
  "splitChar sep cur [] = [cur]"
| "splitChar sep cur (c # cs) =
     (if c = sep then cur # splitChar sep [] cs else splitChar sep (cur @ [c]) cs)"

definition split :: "char \<Rightarrow> string \<Rightarrow> string list" where
  "split sep s = splitChar sep [] s"

text \<open>\<^verbatim>\<open>xs.join(sep)\<close>\<close>

fun join :: "string \<Rightarrow> string list \<Rightarrow> string" where
  "join sep [] = []"
| "join sep [x] = x"
| "join sep (x # y # ys) = x @ sep @ join sep (y # ys)"

text \<open>
  \<^verbatim>\<open>s.toLowerCase()\<close> on the code units 0 to 255: the letters A to Z and the
  letters 192 to 222 other than the multiplication sign 215 move up by 32.
\<close>

definition lowerChar :: "char \<Rightarrow> char" where
  "lowerChar c =
     (let n = (of_char c :: nat)
      in if (65 \<le> n \<and> n \<le> 90) \<or> (192 \<le> n \<and> n \<le> 222 \<and> n \<noteq> 215)
         then char_of (n + 32) else c)"

definition toLowerCase :: "string \<Rightarrow> string" where
  "toLowerCase s = map lowerChar s"

text \<open>
  A property of a post that holds text is read in three ways by the code: the property
  may be missing from the object (\<^verbatim>\<open>undefined\<close> when read), it may be \<^verbatim>\<open>null\<close>, or
  it is a string. \<^verbatim>\<open>hasOwnProperty\<close> tells the first from the other two, and the
  truth test \<^verbatim>\<open>if (x)\<close> accepts non-empty strings only.
\<close>

datatype jsstr = Absent | Null | Str string

fun truthy :: "jsstr \<Rightarrow> bool" where
  "truthy (Str s) = (s \<noteq> [])"
| "truthy _ = False"

text \<open>\<^verbatim>\<open>a || b\<close>\<close>

definition js_or :: "jsstr \<Rightarrow> jsstr \<Rightarrow> jsstr" where
  "js_or a b = (if truthy a then a else b)"

section \<open>The diff engine: \<^verbatim>\<open>compareTagStrings\<close>\<close>

text \<open>
  \<^verbatim>\<open>str.trim().split(/\s+/).filter(t => t).sort()\<close>. The default \<^verbatim>\<open>sort()\<close> orders
  strings by their code units, lexicographically.
\<close>

definition tagTokens :: "string \<Rightarrow> string list" where
  "tagTokens s = filter (\<lambda>t. t \<noteq> []) (splitWs [] (trim s))"

definition sortedTags :: "string \<Rightarrow> string list" where
  "sortedTags s = sort (tagTokens s)"

text \<open>
  \<^verbatim>\<open>
  const compareTagStrings = (str1, str2) => {
      if (!str1 && !str2) return true;
      if (!str1 || !str2) return false;
      const tags1 = str1.trim().split(/\s+/).filter(t => t).sort();
      const tags2 = str2.trim().split(/\s+/).filter(t => t).sort();
      if (tags1.length !== tags2.length) return false;
      return tags1.every((tag, index) => tag === tags2[index]);
  };
  \<close>
\<close>

definition compareTagStrings :: "jsstr \<Rightarrow> jsstr \<Rightarrow> bool" where
  "compareTagStrings str1 str2 =
     (if \<not> truthy str1 \<and> \<not> truthy str2 then True
      else if \<not> truthy str1 \<or> \<not> truthy str2 then False
      else (case (str1, str2) of
              (Str s1, Str s2) \<Rightarrow>
                (let tags1 = sortedTags s1; tags2 = sortedTags s2
                 in if length tags1 \<noteq> length tags2 then False
                    else list_all (\<lambda>index. tags1 ! index = tags2 ! index) [0..<length tags1])
            | _ \<Rightarrow> False))"


section \<open>Posts, the original snapshots and the edit overlay\<close>

text \<open>
  A post is the JSON object returned by the remote source. Its identifier is a number
  (\<^verbatim>\<open>!post.id\<close> holds for the number 0 and for a missing identifier, both modelled
  as 0); the properties read by the code below hold text. \<^verbatim>\<open>JSON.parse(JSON.stringify(p))\<close>
  builds an independent object with the same contents: values are immutable here, so
  the deep copy of \<open>p\<close> is \<open>p\<close>.
\<close>

datatype category = Artist | Copyright | Character | General | Meta

record post =
  post_id :: nat
  preview_file_url :: jsstr
  file_url :: jsstr
  large_file_url :: jsstr
  file_ext :: jsstr
  tag_string :: jsstr
  tag_string_artist :: jsstr
  tag_string_copyright :: jsstr
  tag_string_character :: jsstr
  tag_string_general :: jsstr
  tag_string_meta :: jsstr

text \<open>\<^verbatim>\<open>const categories = ["artist", "copyright", "character", "general", "meta"]\<close>\<close>

definition categories :: "category list" where
  "categories = [Artist, Copyright, Character, General, Meta]"

text \<open>\<^verbatim>\<open>post[`tag_string_${category}`]\<close>, read and written.\<close>

fun tag_string_cat :: "category \<Rightarrow> post \<Rightarrow> jsstr" where
  "tag_string_cat Artist p = tag_string_artist p"
| "tag_string_cat Copyright p = tag_string_copyright p"
| "tag_string_cat Character p = tag_string_character p"
| "tag_string_cat General p = tag_string_general p"
| "tag_string_cat Meta p = tag_string_meta p"

fun set_tag_string_cat :: "category \<Rightarrow> jsstr \<Rightarrow> post \<Rightarrow> post" where
  "set_tag_string_cat Artist v p = p\<lparr>tag_string_artist := v\<rparr>"
| "set_tag_string_cat Copyright v p = p\<lparr>tag_string_copyright := v\<rparr>"
| "set_tag_string_cat Character v p = p\<lparr>tag_string_character := v\<rparr>"
| "set_tag_string_cat General v p = p\<lparr>tag_string_general := v\<rparr>"
| "set_tag_string_cat Meta v p = p\<lparr>tag_string_meta := v\<rparr>"

text \<open>\<^verbatim>\<open>post.hasOwnProperty(key)\<close>\<close>

fun hasOwnProperty :: "jsstr \<Rightarrow> bool" where
  "hasOwnProperty Absent = False"
| "hasOwnProperty _ = True"

text \<open>
  The decision of \<^verbatim>\<open>updateEditedStatus\<close>, on the entries of \<^verbatim>\<open>originalPostCache\<close> and
  \<^verbatim>\<open>temporaryTagEdits\<close> for the post (\<open>None\<close> when the entry is missing or was set to
  \<^verbatim>\<open>undefined\<close>):
  \<^verbatim>\<open>
  let isTrulyEdited = false;
  if (editedPost && originalPost) {
      const hasCategoryTags = categories.some(cat =>
          originalPost.hasOwnProperty(`tag_string_${cat}`) || editedPost.hasOwnProperty(`tag_string_${cat}`));
      if (hasCategoryTags) {
          for (const category of categories) {
              if (!compareTagStrings(originalPost[`tag_string_${category}`], editedPost[`tag_string_${category}`])) {
                  isTrulyEdited = true; break;
              }
          }
      } else {
          if (!compareTagStrings(originalPost.tag_string, editedPost.tag_string)) isTrulyEdited = true;
      }
  }
  \<close>
\<close>

definition isTrulyEdited :: "post option \<Rightarrow> post option \<Rightarrow> bool" where
  "isTrulyEdited originalPost editedPost =
     (case (editedPost, originalPost) of
        (Some e, Some p) \<Rightarrow>
          (let hasCategoryTags =
                 list_ex (\<lambda>cat. hasOwnProperty (tag_string_cat cat p) \<or>
                                 hasOwnProperty (tag_string_cat cat e)) categories
           in if hasCategoryTags
              then list_ex (\<lambda>cat. \<not> compareTagStrings (tag_string_cat cat p) (tag_string_cat cat e))
                     categories
              else \<not> compareTagStrings (tag_string p) (tag_string e))
      | _ \<Rightarrow> False)"

section \<open>The state of one gallery node\<close>

text \<open>An image cell of the grid: its \<^verbatim>\<open>data-post-id\<close>, the class \<^verbatim>\<open>selected\<close> and
  whether it carries the "edited" indicator. The attribute holds the identifier as text
  and the code compares it to \<^verbatim>\<open>post.id\<close> with \<^verbatim>\<open>==\<close>, which compares the numbers; here it
  is the number.\<close>

record wrapper =
  w_postId :: nat
  selected :: bool
  edited_indicator :: bool

text \<open>The value of the hidden widget \<^verbatim>\<open>selection_data\<close>, before \<^verbatim>\<open>JSON.stringify\<close>:
  \<^verbatim>\<open>{}\<close>, \<^verbatim>\<open>{prompt, image_url}\<close> or \<^verbatim>\<open>{selections: [{post_id, prompt, image_url}, ...]}\<close>.\<close>

record selection =
  sel_post_id :: nat
  sel_prompt :: string
  sel_image_url :: jsstr

datatype payload = EmptyObject | Single string jsstr | Selections "selection list"

text \<open>\<^verbatim>\<open>filterState = { startTime, endTime, startPage }\<close>; \<open>None\<close> is \<^verbatim>\<open>null\<close>.\<close>

record filter_state =
  startTime :: "string option"
  endTime :: "string option"
  startPage :: "int option"

text \<open>The texts shown to the user, named by what they say.\<close>

datatype message =
    MsgEndBeforeStart        \<comment> \<open>the end time cannot be earlier than the start time\<close>
  | MsgStartPageInvalid      \<comment> \<open>the start page must be an integer greater than 0\<close>
  | MsgTagLimit              \<comment> \<open>the search considers the first two tags only, later tags are ignored\<close>
  | MsgResetDone             \<comment> \<open>\<^verbatim>\<open>t('resetTags')\<close> followed by "succeeded"\<close>
  | MsgOriginalFetched       \<comment> \<open>the original tags were fetched, click reset again\<close>
  | MsgOriginalUnavailable   \<comment> \<open>the original tags could not be fetched\<close>

datatype toast_kind = ToastError | ToastSuccess | ToastInfo

datatype grid_message =
    GridNetworkError         \<comment> \<open>the network connection failed\<close>
  | GridNoResults            \<comment> \<open>\<^verbatim>\<open>t('noResults')\<close>\<close>
  | GridNotAList             \<comment> \<open>"API did not return a valid list of posts."\<close>
  | GridException            \<comment> \<open>the message of any other exception caught by the page load\<close>

record posts_query =
  q_tags :: string
  q_rating :: string
  q_limit :: string
  q_page :: int

datatype request =
    CheckNetwork                      \<comment> \<open>\<^verbatim>\<open>GET /danbooru_gallery/check_network\<close>\<close>
  | PostsQuery posts_query            \<comment> \<open>\<^verbatim>\<open>GET /danbooru_gallery/posts?...\<close>\<close>
  | SinglePost nat                    \<comment> \<open>\<^verbatim>\<open>GET /danbooru_gallery/posts?search[id]=...&limit=1\<close>\<close>
  | TranslateBatch "string list"      \<comment> \<open>\<^verbatim>\<open>POST /danbooru_gallery/translate_tags_batch\<close>\<close>

text \<open>The tooltip: what \<^verbatim>\<open>.danbooru-tooltip-tags\<close> holds. The details section shows the
  upload date and the resolution of a post; a tag section shows the texts of its tag spans.\<close>

datatype tip_section = DetailsSection post | TagSection category "string list"

text \<open>A \<^verbatim>\<open>mouseenter\<close> handler suspended at \<^verbatim>\<open>await fetch(...)\<close>: its captured
  \<^verbatim>\<open>thisTooltipId\<close>, its post and its grid cell.\<close>

record hover =
  thisTooltipId :: nat
  h_post :: post
  h_wrapper :: nat

text \<open>
  The variables of the closure of \<^verbatim>\<open>onNodeCreated\<close> and the parts of the page that the
  handlers below read or write. \<open>requests\<close> is the log of the network calls issued so far.
  \<^verbatim>\<open>currentTooltipId\<close> starts at 0 and is only ever incremented by one; it is a natural
  number here (the JavaScript number counts exactly up to \<open>2^53\<close>). The hint shown by
  \<^verbatim>\<open>showTagHint\<close> hides itself after three seconds; \<open>tagHint\<close> is the hint as last set.
\<close>

record gallery =
  posts :: "post list"
  currentPage :: int
  isLoading :: bool
  filterState :: filter_state
  temporaryTagEdits :: "nat \<rightharpoonup> post"
  originalPostCache :: "nat \<rightharpoonup> post"
  currentTooltipId :: nat
  currentBlacklist :: "string list"
  currentFilterTags :: "string list"
  filterEnabled :: bool
  tooltip_enabled :: bool
  multi_select_enabled :: bool
  language_zh :: bool
  networkConnected :: bool
  searchInput :: string
  ratingValue :: string
  selectedCategories :: "category list"
  escapeBrackets :: bool
  replaceUnderscores :: bool
  wrappers :: "wrapper list"
  gridLoading :: bool
  gridMessage :: "grid_message option"
  refreshLoading :: bool
  errorDisplay :: bool
  tagHint :: "message option"
  toasts :: "(message \<times> toast_kind) list"
  selection_data :: payload
  selectionCount :: "nat option"
  filter_data :: filter_state
  storedFilterData :: "filter_state option"
  filterButtonActive :: bool
  tooltipSections :: "tip_section list"
  tooltipDisplay :: bool
  tooltipClickHandlers :: "nat list"
  inflight :: "hover list"
  requests :: "request list"

text \<open>\<^verbatim>\<open>xs.findIndex(pred)\<close>, \<open>None\<close> for \<^verbatim>\<open>-1\<close>; \<^verbatim>\<open>querySelector\<close> finds the first
  cell in the same way.\<close>

fun findIndex :: "('a \<Rightarrow> bool) \<Rightarrow> 'a list \<Rightarrow> nat option" where
  "findIndex P [] = None"
| "findIndex P (x # xs) =
     (if P x then Some 0 else (case findIndex P xs of None \<Rightarrow> None | Some i \<Rightarrow> Some (Suc i)))"

text \<open>\<^verbatim>\<open>showToast(message, kind)\<close>; \<^verbatim>\<open>showError(message)\<close> is \<^verbatim>\<open>showToast(message, 'error')\<close>.\<close>

definition showToast :: "message \<Rightarrow> toast_kind \<Rightarrow> gallery \<Rightarrow> gallery" where
  "showToast m k s = s\<lparr>toasts := toasts s @ [(m, k)]\<rparr>"

definition showError :: "message \<Rightarrow> gallery \<Rightarrow> gallery" where
  "showError m s = showToast m ToastError s"

text \<open>
  \<^verbatim>\<open>updateEditedStatus(wrapperElement, postId)\<close> for the cell at index \<open>i\<close> of the grid:
  the indicator is added when the post is edited and removed when it is not, and the
  decision is returned.
\<close>

definition updateEditedStatus :: "nat \<Rightarrow> nat \<Rightarrow> gallery \<Rightarrow> gallery \<times> bool" where
  "updateEditedStatus i postId s =
     (let isEdited = isTrulyEdited (originalPostCache s postId) (temporaryTagEdits s postId)
      in (if i < length (wrappers s)
          then s\<lparr>wrappers := (wrappers s)[i := (wrappers s ! i)\<lparr>edited_indicator := isEdited\<rparr>]\<rparr>
          else s,
          isEdited))"


section \<open>The selection projector\<close>

text \<open>\<^verbatim>\<open>tag.replace(/_/g, ' ')\<close> and
  \<^verbatim>\<open>tag.replaceAll('(', '\\(').replaceAll(')', '\\)')\<close>\<close>

definition replaceUnderscore :: "string \<Rightarrow> string" where
  "replaceUnderscore tag = map (\<lambda>c. if c = CHR ''_'' then CHR '' '' else c) tag"

definition escapeParens :: "string \<Rightarrow> string" where
  "escapeParens tag =
     concat (map (\<lambda>c. if c = CHR '')'' then [CHR 0x5C, CHR '')''] else [c])
       (concat (map (\<lambda>c. if c = CHR ''('' then [CHR 0x5C, CHR ''(''] else [c]) tag)))"

text \<open>
  The prompt of a post. The same lines appear in \<^verbatim>\<open>buildPromptForPost\<close>,
  \<^verbatim>\<open>showEditPanel\<close> and the reset handler:
  \<^verbatim>\<open>
  let output_tags = [];
  selectedCategories.forEach(category => {
      const tags = postToUse[`tag_string_${category}`];
      if (tags) output_tags.push(...tags.split(' '));
  });
  let tagsToProcess = (output_tags.length > 0) ? output_tags : (postToUse.tag_string || '').split(' ');
  if (filterEnabled && currentFilterTags.length > 0) {
      const filterTagsLower = currentFilterTags.map(tag => tag.toLowerCase().trim());
      tagsToProcess = tagsToProcess.filter(tag => !filterTagsLower.includes(tag.toLowerCase().trim()));
  }
  const processedTags = tagsToProcess.map(tag => { ... });
  return processedTags.join(', ');
  \<close>
\<close>

definition splitTruthy :: "jsstr \<Rightarrow> string list" where
  "splitTruthy v = (case v of Str tags \<Rightarrow> if tags \<noteq> [] then split CHR '' '' tags else [] | _ \<Rightarrow> [])"

definition promptOf :: "gallery \<Rightarrow> post \<Rightarrow> string" where
  "promptOf s postToUse =
     (let output_tags =
            concat (map (\<lambda>category. splitTruthy (tag_string_cat category postToUse))
                        (selectedCategories s));
          tagsToProcess =
            (if output_tags \<noteq> [] then output_tags
             else split CHR '' '' (case tag_string postToUse of Str t \<Rightarrow> t | _ \<Rightarrow> []));
          filtered =
            (if filterEnabled s \<and> currentFilterTags s \<noteq> []
             then (let filterTagsLower = map (\<lambda>tag. trim (toLowerCase tag)) (currentFilterTags s)
                   in filter (\<lambda>tag. trim (toLowerCase tag) \<notin> set filterTagsLower) tagsToProcess)
             else tagsToProcess);
          processedTags =
            map (\<lambda>tag. let processedTag = (if replaceUnderscores s then replaceUnderscore tag else tag)
                        in if escapeBrackets s then escapeParens processedTag else processedTag)
                filtered
      in join '', '' processedTags)"

text \<open>\<^verbatim>\<open>const postToUse = temporaryTagEdits[postData.id] || postData;\<close>\<close>

definition buildPromptForPost :: "gallery \<Rightarrow> post \<Rightarrow> string" where
  "buildPromptForPost s postData =
     promptOf s (case temporaryTagEdits s (post_id postData) of Some e \<Rightarrow> e | None \<Rightarrow> postData)"

definition updateSelectionCount :: "nat \<Rightarrow> gallery \<Rightarrow> gallery" where
  "updateSelectionCount cnt s =
     s\<lparr>selectionCount := (if cnt > 0 \<and> multi_select_enabled s then Some cnt else None)\<rparr>"

text \<open>
  \<^verbatim>\<open>
  const updateSelectionData = () => {
      const selectedWrappers = imageGrid.querySelectorAll('.danbooru-image-wrapper.selected');
      const selections = [];
      selectedWrappers.forEach(wrapper => {
          const postId = wrapper.dataset.postId;
          const postData = posts.find(p => p.id == postId) || temporaryTagEdits[postId];
          if (postData) {
              const imageUrl = postData.file_url || postData.large_file_url;
              const prompt = buildPromptForPost(postData);
              selections.push({ post_id: postId, prompt: prompt, image_url: imageUrl });
          }
      });
      const selectionData = { selections: selections };
      ... selectionWidget.value = JSON.stringify(selectionData); selectionWidget.callback(); ...
      updateSelectionCount(selections.length);
  };
  \<close>
\<close>

definition selectionOf :: "gallery \<Rightarrow> wrapper \<Rightarrow> selection list" where
  "selectionOf s w =
     (let postId = w_postId w;
          postData = (case find (\<lambda>p. post_id p = postId) (posts s) of
                        Some p \<Rightarrow> Some p
                      | None \<Rightarrow> temporaryTagEdits s postId)
      in case postData of
           Some pd \<Rightarrow> [\<lparr>sel_post_id = postId, sel_prompt = buildPromptForPost s pd,
                        sel_image_url = js_or (file_url pd) (large_file_url pd)\<rparr>]
         | None \<Rightarrow> [])"

definition updateSelectionData :: "gallery \<Rightarrow> gallery" where
  "updateSelectionData s =
     (let selections = concat (map (selectionOf s) (filter selected (wrappers s)))
      in updateSelectionCount (length selections) (s\<lparr>selection_data := Selections selections\<rparr>))"

text \<open>
  The click on the image of the cell at index \<open>i\<close> (\<^verbatim>\<open>img.onclick\<close> in
  \<^verbatim>\<open>createPostElement\<close>):
  \<^verbatim>\<open>
  const isSelected = wrapper.classList.contains('selected');
  const isMultiSelectMode = uiSettings.multi_select_enabled;
  if (!isMultiSelectMode) {
      imageGrid.querySelectorAll('.danbooru-image-wrapper').forEach(w => {
          if (w !== wrapper) w.classList.remove('selected');
      });
  }
  if (!isSelected) wrapper.classList.add('selected'); else wrapper.classList.remove('selected');
  updateSelectionData();
  \<close>
\<close>

definition imgClick :: "nat \<Rightarrow> gallery \<Rightarrow> gallery" where
  "imgClick i s =
     (if i < length (wrappers s)
      then (let ws = wrappers s;
                isSelected = selected (ws ! i);
                ws1 = (if \<not> multi_select_enabled s
                       then map (\<lambda>j. if j \<noteq> i then (ws ! j)\<lparr>selected := False\<rparr> else ws ! j)
                                [0..<length ws]
                       else ws);
                ws2 = ws1[i := (ws1 ! i)\<lparr>selected := \<not> isSelected\<rparr>]
            in updateSelectionData (s\<lparr>wrappers := ws2\<rparr>))
      else s)"

section \<open>The edit panel\<close>

text \<open>
  \<^verbatim>\<open>renderTagsInPanel\<close> draws the tags of a post inside the panel. Of what it does, the
  state kept here records its last step only, on the first cell of the post. In the
  Chinese language setting the code first posts the tags to
  \<^verbatim>\<open>/danbooru_gallery/translate_tags_batch\<close> and takes the last step when the answer has
  arrived; that request is not logged in \<open>requests\<close>, and the step is taken at once. The
  step writes the indicator of a grid cell and nothing else.
  \<^verbatim>\<open>
  const postElement = imageGrid.querySelector(`.danbooru-image-wrapper[data-post-id="${postData.id}"]`);
  if (postElement) updateEditedStatus(postElement, postData.id);
  \<close>
\<close>

definition refreshEditedIndicator :: "nat \<Rightarrow> nat \<Rightarrow> gallery \<Rightarrow> gallery" where
  "refreshEditedIndicator cellId postId s =
     (case findIndex (\<lambda>w. w_postId w = cellId) (wrappers s) of
        Some i \<Rightarrow> fst (updateEditedStatus i postId s)
      | None \<Rightarrow> s)"



text \<open>
  The "reset tags" button of the panel opened for \<open>p\<close> (\<^verbatim>\<open>resetTagsButton.onclick\<close>).
  \<open>fetched\<close> is the answer of \<^verbatim>\<open>fetchOriginalPost(post.id)\<close>, used only when no
  original snapshot is cached:
  \<^verbatim>\<open>
  const originalPostData = originalPostCache[post.id];
  if (originalPostData) {
      const postIndex = posts.findIndex(p => p.id === post.id);
      if (postIndex !== -1) posts[postIndex] = JSON.parse(JSON.stringify(originalPostData));
      temporaryTagEdits[post.id] = undefined;
      renderTagsInPanel(tagsContainer, originalPostData, panel);
      const wrapperElement = imageGrid.querySelector(`.danbooru-image-wrapper[data-post-id="${post.id}"]`);
      if (wrapperElement) updateEditedStatus(wrapperElement, originalPostData.id);
      if (isPostCurrentlySelected) { ... selectionWidget.value = JSON.stringify({prompt, image_url}); ... }
      showToast(t('resetTags') + ..., 'success', resetTagsButton);
  } else {
      const fetchedOriginalPost = await fetchOriginalPost(post.id);
      if (fetchedOriginalPost) {
          originalPostCache[post.id] = JSON.parse(JSON.stringify(fetchedOriginalPost));
          showToast(..., 'info', resetTagsButton);
          renderTagsInPanel(tagsContainer, originalPostCache[post.id], panel);
      } else {
          showError(..., false, resetTagsButton);
      }
  }
  \<close>
\<close>

definition resetTags :: "post option \<Rightarrow> post \<Rightarrow> gallery \<Rightarrow> gallery" where
  "resetTags fetched p s =
     (case originalPostCache s (post_id p) of
        Some originalPostData \<Rightarrow>
          (let ps = posts s;
               ps1 = (case findIndex (\<lambda>q. post_id q = post_id p) ps of
                        Some postIndex \<Rightarrow> ps[postIndex := originalPostData]
                      | None \<Rightarrow> ps);
               s1 = s\<lparr>posts := ps1, temporaryTagEdits := (temporaryTagEdits s)(post_id p := None)\<rparr>;
               s2 = refreshEditedIndicator (post_id originalPostData) (post_id originalPostData) s1;
               s3 = refreshEditedIndicator (post_id p) (post_id originalPostData) s2;
               s4 = s3\<lparr>selection_data :=
                         Single (promptOf s3 originalPostData)
                                (js_or (file_url originalPostData) (large_file_url originalPostData))\<rparr>
           in showToast MsgResetDone ToastSuccess s4)
      | None \<Rightarrow>
          (let s1 = s\<lparr>requests := requests s @ [SinglePost (post_id p)]\<rparr>
           in case fetched of
                Some fetchedOriginalPost \<Rightarrow>
                  refreshEditedIndicator (post_id fetchedOriginalPost) (post_id fetchedOriginalPost)
                    (showToast MsgOriginalFetched ToastInfo
                       (s1\<lparr>originalPostCache :=
                             (originalPostCache s1)(post_id p \<mapsto> fetchedOriginalPost)\<rparr>))
              | None \<Rightarrow> showError MsgOriginalUnavailable s1))"


section \<open>Client-side filters\<close>

text \<open>
  \<^verbatim>\<open>url.match(/\.([^.?#]+)(?:\?|#|$)/)\<close>, giving the captured group of the leftmost
  match: a dot, then the longest run of characters other than \<^verbatim>\<open>.\<close>, \<^verbatim>\<open>?\<close> and
  \<^verbatim>\<open>#\<close>, which must not be empty and must be followed by \<^verbatim>\<open>?\<close>, by \<^verbatim>\<open>#\<close> or by the
  end of the string. A shorter run is followed by a character of the run, so it never
  matches where the longest one does not.
\<close>

definition extStop :: "char \<Rightarrow> bool" where
  "extStop c = (c = CHR ''.'' \<or> c = CHR ''?'' \<or> c = CHR ''#'')"

fun extMatch :: "string \<Rightarrow> string option" where
  "extMatch [] = None"
| "extMatch (c # cs) =
     (if c = CHR ''.''
      then (let ext = takeWhile (\<lambda>x. \<not> extStop x) cs;
                rest = dropWhile (\<lambda>x. \<not> extStop x) cs
            in if ext \<noteq> [] \<and> (case rest of [] \<Rightarrow> True | r # _ \<Rightarrow> r = CHR ''?'' \<or> r = CHR ''#'')
               then Some ext else extMatch cs)
      else extMatch cs)"

text \<open>
  \<^verbatim>\<open>
  const isValidImageType = (post) => {
      const allowedImageExtensions = ['jpg', 'jpeg', 'png', 'webp', 'bmp', 'tiff', 'tif'];
      if (post.file_ext) {
          const fileExt = post.file_ext.toLowerCase();
          return allowedImageExtensions.includes(fileExt);
      }
      if (post.file_url) {
          const url = post.file_url.toLowerCase();
          const extMatch = url.match(/\.([^.?#]+)(?:\?|#|$)/);
          if (extMatch) { const fileExt = extMatch[1]; return allowedImageExtensions.includes(fileExt); }
      }
      return false;
  };
  \<close>
\<close>

definition allowedImageExtensions :: "string list" where
  "allowedImageExtensions = [''jpg'', ''jpeg'', ''png'', ''webp'', ''bmp'', ''tiff'', ''tif'']"

definition isValidImageType :: "post \<Rightarrow> bool" where
  "isValidImageType p =
     (if truthy (file_ext p)
      then (case file_ext p of
              Str e \<Rightarrow> toLowerCase e \<in> set allowedImageExtensions
            | _ \<Rightarrow> False)
      else if truthy (file_url p)
      then (case file_url p of
              Str u \<Rightarrow> (case extMatch (toLowerCase u) of
                          Some fileExt \<Rightarrow> fileExt \<in> set allowedImageExtensions
                        | None \<Rightarrow> False)
            | _ \<Rightarrow> False)
      else False)"

text \<open>
  \<^verbatim>\<open>
  const isPostBlacklisted = (post) => {
      if (!currentBlacklist || currentBlacklist.length === 0) return false;
      const allTags = [];
      if (post.tag_string) allTags.push(...post.tag_string.split(' '));
      ... the same for the five categories ...
      for (const blacklistTag of currentBlacklist) {
          const normalizedBlacklistTag = blacklistTag.trim().toLowerCase();
          if (normalizedBlacklistTag && allTags.some(tag => tag.toLowerCase() === normalizedBlacklistTag))
              return true;
      }
      return false;
  };
  \<close>
\<close>

definition isPostBlacklisted :: "gallery \<Rightarrow> post \<Rightarrow> bool" where
  "isPostBlacklisted s p =
     (if currentBlacklist s = [] then False
      else (let allTags = splitTruthy (tag_string p) @ splitTruthy (tag_string_artist p) @
                          splitTruthy (tag_string_copyright p) @ splitTruthy (tag_string_character p) @
                          splitTruthy (tag_string_general p) @ splitTruthy (tag_string_meta p)
            in list_ex (\<lambda>blacklistTag.
                          let normalizedBlacklistTag = toLowerCase (trim blacklistTag)
                          in normalizedBlacklistTag \<noteq> [] \<and>
                             list_ex (\<lambda>tag. toLowerCase tag = normalizedBlacklistTag) allTags)
                       (currentBlacklist s)))"

text \<open>
  \<^verbatim>\<open>
  const isPostFiltered = (post) => {
      if (!isValidImageType(post)) return true;
      return isPostBlacklisted(post);
  };
  \<close>
\<close>

definition isPostFiltered :: "gallery \<Rightarrow> post \<Rightarrow> bool" where
  "isPostFiltered s p = (if \<not> isValidImageType p then True else isPostBlacklisted s p)"

section \<open>Rendering a post\<close>

text \<open>
  \<^verbatim>\<open>
  const createPostElement = (post) => {
      if (!post.id || !post.preview_file_url) return null;
      const wrapper = $el("div.danbooru-image-wrapper");
      wrapper.dataset.postId = post.id;
      if (!originalPostCache[post.id]) originalPostCache[post.id] = JSON.parse(JSON.stringify(post));
      updateEditedStatus(wrapper, post.id);
      ...
      return wrapper;
  };
  const renderPost = (post) => {
      const element = createPostElement(post);
      if (element) imageGrid.appendChild(element);
  };
  \<close>
\<close>

definition createPostElement :: "post \<Rightarrow> gallery \<Rightarrow> wrapper option \<times> gallery" where
  "createPostElement p s =
     (if post_id p = 0 \<or> \<not> truthy (preview_file_url p) then (None, s)
      else (let s1 = (if originalPostCache s (post_id p) = None
                      then s\<lparr>originalPostCache := (originalPostCache s)(post_id p \<mapsto> p)\<rparr>
                      else s)
            in (Some \<lparr>w_postId = post_id p, selected = False,
                      edited_indicator = isTrulyEdited (originalPostCache s1 (post_id p))
                                                       (temporaryTagEdits s1 (post_id p))\<rparr>,
                s1)))"

definition renderPost :: "post \<Rightarrow> gallery \<Rightarrow> gallery" where
  "renderPost p s =
     (case createPostElement p s of
        (Some element, s1) \<Rightarrow> s1\<lparr>wrappers := wrappers s1 @ [element]\<rparr>
      | (None, s1) \<Rightarrow> s1)"

section \<open>The page load: \<^verbatim>\<open>fetchAndRender\<close>\<close>

text \<open>\<^verbatim>\<open>convertedTag.replace(/\\([()])/g, '$1')\<close>: a backslash before a parenthesis is
  dropped.\<close>

fun unescapeBrackets :: "string \<Rightarrow> string" where
  "unescapeBrackets (a # b # cs) =
     (if a = CHR 0x5C \<and> (b = CHR ''('' \<or> b = CHR '')'')
      then b # unescapeBrackets cs else a # unescapeBrackets (b # cs))"
| "unescapeBrackets cs = cs"

text \<open>\<^verbatim>\<open>convertedTag.replace(/\s+/g, '_')\<close>: every maximal run of whitespace becomes one
  underscore.\<close>

function spacesToUnderscore :: "string \<Rightarrow> string" where
  "spacesToUnderscore [] = []"
| "spacesToUnderscore (c # cs) =
     (if isSpace c then CHR ''_'' # spacesToUnderscore (dropWhile isSpace cs)
      else c # spacesToUnderscore cs)"
  by pat_completeness auto
termination
  by (relation "measure length") (auto simp: length_dropWhile_le less_Suc_eq_le)

text \<open>
  \<^verbatim>\<open>
  const convertTagsToApiFormat = (tagsString) => {
      if (!tagsString) return "";
      const tags = tagsString.split(',').filter(tag => tag.trim() !== '');
      return tags.map(tag => {
          let convertedTag = tag.trim();
          convertedTag = convertedTag.replace(/\\([()])/g, '$1');
          if (!convertedTag.includes(':')) convertedTag = convertedTag.replace(/\s+/g, '_');
          return convertedTag;
      }).join(' ');
  };
  \<close>
\<close>

definition convertTag :: "string \<Rightarrow> string" where
  "convertTag tag =
     (let convertedTag = unescapeBrackets (trim tag)
      in if CHR '':'' \<notin> set convertedTag then spacesToUnderscore convertedTag else convertedTag)"

definition convertTagsToApiFormat :: "string \<Rightarrow> string" where
  "convertTagsToApiFormat tagsString =
     (if tagsString = [] then []
      else join '' '' (map convertTag (filter (\<lambda>tag. trim tag \<noteq> []) (split CHR '','' tagsString))))"

text \<open>
  What the outside answers during one page load: the connectivity probe, the search
  endpoint (a list of posts, a value that is not a list, or a failed call), and the
  platform's \<^verbatim>\<open>Date\<close>: \<open>toISODate x\<close> is \<^verbatim>\<open>new Date(x).toISOString().split('T')[0]\<close>
  (\<open>None\<close> when it throws on an invalid date) and \<open>dateValue x\<close> is the time value of
  \<^verbatim>\<open>new Date(x)\<close> (\<open>None\<close> for \<^verbatim>\<open>NaN\<close>).
\<close>

datatype posts_reply = ReplyPosts "post list" | ReplyNotArray | ReplyFailure

record env =
  network_reply :: bool
  posts_reply :: posts_reply
  toISODate :: "string \<Rightarrow> string option"
  dateValue :: "string \<Rightarrow> int option"

definition truthyOpt :: "string option \<Rightarrow> bool" where
  "truthyOpt x = (case x of Some v \<Rightarrow> v \<noteq> [] | None \<Rightarrow> False)"

text \<open>\<^verbatim>\<open>filterState.startTime ? new Date(filterState.startTime).toISOString().split('T')[0] : ''\<close>\<close>

definition isoOrEmpty :: "env \<Rightarrow> string option \<Rightarrow> string option" where
  "isoOrEmpty e x = (case x of Some v \<Rightarrow> if v \<noteq> [] then toISODate e v else Some [] | None \<Rightarrow> Some [])"

text \<open>The value of \<^verbatim>\<open>search[tags]\<close>; \<open>None\<close> when the date conversion throws.\<close>

definition tagsParameter :: "env \<Rightarrow> gallery \<Rightarrow> string option" where
  "tagsParameter e s =
     (let searchValue = trim (searchInput s);
          apiFormattedTags = convertTagsToApiFormat searchValue
      in if truthyOpt (startTime (filterState s)) \<or> truthyOpt (endTime (filterState s))
         then (case isoOrEmpty e (startTime (filterState s)) of
                 None \<Rightarrow> None
               | Some start \<Rightarrow>
                   (case isoOrEmpty e (endTime (filterState s)) of
                      None \<Rightarrow> None
                    | Some end' \<Rightarrow>
                        Some (trim (apiFormattedTags @ '' date:'' @ start @ ''..'' @ end'))))
         else Some (trim apiFormattedTags))"

text \<open>\<^verbatim>\<open>imageGrid.innerHTML = `<p class="danbooru-status ...">...</p>`\<close>: the grid holds
  the message and nothing else.\<close>

definition gridShowOnly :: "grid_message \<Rightarrow> gallery \<Rightarrow> gallery" where
  "gridShowOnly m s = s\<lparr>wrappers := [], gridLoading := False, gridMessage := Some m\<rparr>"

text \<open>The \<^verbatim>\<open>try\<close> block of \<^verbatim>\<open>fetchAndRender\<close> with its \<^verbatim>\<open>catch\<close>.\<close>

definition loadPage :: "env \<Rightarrow> bool \<Rightarrow> gallery \<Rightarrow> gallery" where
  "loadPage e reset s =
     (let searchValue = trim (searchInput s);
          tags = filter (\<lambda>tag. trim tag \<noteq> []) (split CHR '','' searchValue);
          tagCount = length tags;
          s1 = (if tagCount > 2 then s\<lparr>tagHint := Some MsgTagLimit\<rparr> else s\<lparr>tagHint := None\<rparr>)
      in case tagsParameter e s1 of
           None \<Rightarrow> gridShowOnly GridException s1
         | Some tagsParam \<Rightarrow>
             (let s2 = s1\<lparr>requests := requests s1 @
                          [PostsQuery \<lparr>q_tags = tagsParam, q_rating = ratingValue s1,
                                       q_limit = ''100'', q_page = currentPage s1\<rparr>]\<rparr>
              in case posts_reply e of
                   ReplyFailure \<Rightarrow> gridShowOnly GridException s2
                 | ReplyNotArray \<Rightarrow> gridShowOnly GridNotAList s2
                 | ReplyPosts newPosts \<Rightarrow>
                     (let filteredPosts = filter (\<lambda>p. \<not> isPostFiltered s2 p) newPosts
                      in if filteredPosts = [] \<and> reset then gridShowOnly GridNoResults s2
                         else foldl (\<lambda>st p. renderPost p st)
                                (s2\<lparr>currentPage := currentPage s2 + 1,
                                    posts := posts s2 @ filteredPosts\<rparr>)
                                filteredPosts)))"

text \<open>
  \<^verbatim>\<open>
  const fetchAndRender = async (reset = false) => {
      if (isLoading) { return; }
      isLoading = true;
      ... the refresh button and the loading line ...
      if (reset) {
          currentPage = filterState.startPage || 1;
          posts = [];
          imageGrid.innerHTML = ""; ... the loading line ...
      }
      const isNetworkConnected = await checkNetworkStatus();
      if (!isNetworkConnected) {
          imageGrid.innerHTML = `<p class="danbooru-status error">...</p>`;
          isLoading = false; ...
          return;
      } else { clearError(); }
      try { ... } catch (e) { ... } finally { isLoading = false; ... }
  };
  \<close>
  The two suspension points (the probe and the query) are answered by \<open>e\<close>.
\<close>

definition fetchAndRender :: "env \<Rightarrow> bool \<Rightarrow> gallery \<Rightarrow> gallery" where
  "fetchAndRender e reset s =
     (if isLoading s then s
      else (let s1 = s\<lparr>isLoading := True, refreshLoading := True, gridLoading := True\<rparr>;
                s2 = (if reset
                      then s1\<lparr>currentPage := (case startPage (filterState s1) of
                                                Some n \<Rightarrow> if n \<noteq> 0 then n else 1
                                              | None \<Rightarrow> 1),
                              posts := [], wrappers := [], gridMessage := None\<rparr>
                      else s1);
                s3 = s2\<lparr>requests := requests s2 @ [CheckNetwork],
                        networkConnected := network_reply e\<rparr>
            in if \<not> network_reply e
               then (gridShowOnly GridNetworkError s3)\<lparr>isLoading := False, refreshLoading := False\<rparr>
               else (loadPage e reset (s3\<lparr>errorDisplay := False\<rparr>))
                      \<lparr>isLoading := False, refreshLoading := False, gridLoading := False\<rparr>))"


section \<open>The filter dialog\<close>

text \<open>
  \<^verbatim>\<open>parseInt(text, 10)\<close>: leading whitespace is skipped, one sign is read, then the
  longest run of decimal digits; \<open>None\<close> is \<^verbatim>\<open>NaN\<close>, the result when there is no
  digit. (The result \<^verbatim>\<open>-0\<close> is 0 here; both are below 1 and both are falsy. The result
  is the exact integer, where the code has the nearest double: equal up to \<open>2^53\<close>, and
  beyond it a double or an infinity of the same sign, never moved across 1.)
\<close>

definition isDigit :: "char \<Rightarrow> bool" where
  "isDigit c = (48 \<le> (of_char c :: nat) \<and> (of_char c :: nat) \<le> 57)"

definition digitsValue :: "string \<Rightarrow> nat" where
  "digitsValue ds = foldl (\<lambda>acc c. 10 * acc + (of_char c - 48)) 0 ds"

definition parseInt :: "string \<Rightarrow> int option" where
  "parseInt text =
     (let s1 = dropWhile isSpace text;
          negative = (case s1 of c # _ \<Rightarrow> c = CHR ''-'' | [] \<Rightarrow> False);
          s2 = (case s1 of c # cs \<Rightarrow> if c = CHR ''-'' \<or> c = CHR ''+'' then cs else s1 | [] \<Rightarrow> s1);
          ds = takeWhile isDigit s2
      in if ds = [] then None
         else Some (if negative then - int (digitsValue ds) else int (digitsValue ds)))"

text \<open>The decimal numeral of an integer, as a number field holds it.\<close>

fun natDigits :: "nat \<Rightarrow> string" where
  "natDigits n = (if n < 10 then [char_of (48 + n)] else natDigits (n div 10) @ [char_of (48 + n mod 10)])"

definition decimal :: "int \<Rightarrow> string" where
  "decimal n = (if n < 0 then CHR ''-'' # natDigits (nat (- n)) else natDigits (nat n))"

text \<open>The controls of the dialog when "apply" is pressed: the checked radio button and
  the values of the three inputs.\<close>

datatype filter_type = ByTime | ByPage

record filter_inputs =
  selectedType :: filter_type
  startTimeInput :: string
  endTimeInput :: string
  startPageInput :: string

text \<open>\<^verbatim>\<open>new Date(startTime) > new Date(endTime)\<close>: false when either time value is
  \<^verbatim>\<open>NaN\<close>.\<close>

definition dateAfter :: "env \<Rightarrow> string \<Rightarrow> string \<Rightarrow> bool" where
  "dateAfter e a b =
     (case dateValue e a of
        Some x \<Rightarrow> (case dateValue e b of Some y \<Rightarrow> x > y | None \<Rightarrow> False)
      | None \<Rightarrow> False)"

definition emptyToNull :: "string \<Rightarrow> string option" where
  "emptyToNull v = (if v \<noteq> [] then Some v else None)"

text \<open>The part of the handler after the validation: the filter is persisted, the filter
  button is lit when a filter is set, the dialog closes and the first page is loaded.\<close>

definition submitFilter :: "env \<Rightarrow> gallery \<Rightarrow> gallery" where
  "submitFilter e s =
     (let f = filterState s;
          s1 = s\<lparr>storedFilterData := Some f, filter_data := f,
                 filterButtonActive :=
                   (truthyOpt (startTime f) \<or> truthyOpt (endTime f) \<or>
                    (case startPage f of Some n \<Rightarrow> n \<noteq> 0 | None \<Rightarrow> False))\<rparr>
      in fetchAndRender e True s1)"

text \<open>
  \<^verbatim>\<open>
  onclick: () => {
      const selectedType = radioGroup.querySelector('input[name="filter-type"]:checked').value;
      if (selectedType === 'time') {
          const startTime = startTimeInput.value;
          const endTime = endTimeInput.value;
          if (startTime && endTime && new Date(startTime) > new Date(endTime)) {
              showError(...); return;
          }
          filterState.startTime = startTime || null;
          filterState.endTime = endTime || null;
          filterState.startPage = null;
      } else {
          const startPage = parseInt(startPageInput.value, 10);
          if (startPageInput.value && (isNaN(startPage) || startPage < 1)) {
              showError(...); return;
          }
          filterState.startTime = null;
          filterState.endTime = null;
          filterState.startPage = isNaN(startPage) ? null : startPage;
      }
      saveToLocalStorage('filterData', filterState);
      filterWidget.value = JSON.stringify(filterState);
      ... filterButton ...
      dialog.remove();
      fetchAndRender(true);
  }
  \<close>
\<close>

definition applyFilter :: "env \<Rightarrow> filter_inputs \<Rightarrow> gallery \<Rightarrow> gallery" where
  "applyFilter e inp s =
     (case selectedType inp of
        ByTime \<Rightarrow>
          (let startTime' = startTimeInput inp; endTime' = endTimeInput inp
           in if startTime' \<noteq> [] \<and> endTime' \<noteq> [] \<and> dateAfter e startTime' endTime'
              then showError MsgEndBeforeStart s
              else submitFilter e
                     (s\<lparr>filterState := \<lparr>startTime = emptyToNull startTime',
                                        endTime = emptyToNull endTime',
                                        startPage = None\<rparr>\<rparr>))
      | ByPage \<Rightarrow>
          (let startPage' = parseInt (startPageInput inp)
           in if startPageInput inp \<noteq> [] \<and>
                 (case startPage' of None \<Rightarrow> True | Some n \<Rightarrow> n < 1)
              then showError MsgStartPageInvalid s
              else submitFilter e
                     (s\<lparr>filterState := \<lparr>startTime = None, endTime = None,
                                        startPage = startPage'\<rparr>\<rparr>)))"

section \<open>The tooltip and its translation fetch\<close>

text \<open>
  The tags of the tooltip: one insertion-ordered \<^verbatim>\<open>Set\<close> per category, filled from
  \<^verbatim>\<open>post.tag_string_<category>.split(' ')\<close> when that string is truthy; when all five
  sets are empty and \<^verbatim>\<open>post.tag_string\<close> is truthy, its pieces go to the general set.
\<close>

definition setAddAll :: "string list \<Rightarrow> string list" where
  "setAddAll xs = foldl (\<lambda>acc t. if t \<in> set acc then acc else acc @ [t]) [] xs"

definition ownTags :: "post \<Rightarrow> category \<Rightarrow> string list" where
  "ownTags p cat = setAddAll (splitTruthy (tag_string_cat cat p))"

definition categorizedTags :: "post \<Rightarrow> category \<Rightarrow> string list" where
  "categorizedTags p cat =
     (if list_all (\<lambda>c. ownTags p c = []) categories \<and> truthy (tag_string p) \<and> cat = General
      then setAddAll (splitTruthy (tag_string p))
      else ownTags p cat)"

definition allTagsOf :: "post \<Rightarrow> string list" where
  "allTagsOf p = concat (map (categorizedTags p) categories)"

text \<open>\<^verbatim>\<open>createTagSpan\<close>: the text is \<^verbatim>\<open>`${tag} [${translation}]`\<close> when the translation is
  truthy and the tag otherwise. \<open>translations\<close> lists the own properties of the object
  that the code indexes with \<^verbatim>\<open>translations[tag]\<close>; a tag that is the name of a member
  inherited from \<^verbatim>\<open>Object.prototype\<close> (such as \<^verbatim>\<open>constructor\<close>) and has no own entry reads
  that member in the code and is shown with it, and is shown bare here. This concerns the
  text of a painted tag only, not whether the tooltip is painted.\<close>

definition tagSpanText :: "(string \<times> string) list \<Rightarrow> string \<Rightarrow> string" where
  "tagSpanText translations tag =
     (case map_of translations tag of
        Some tr \<Rightarrow> if tr \<noteq> [] then tag @ '' ['' @ tr @ '']'' else tag
      | None \<Rightarrow> tag)"

text \<open>
  The part of the \<^verbatim>\<open>mouseenter\<close> handler after the fetch:
  \<^verbatim>\<open>
  if (thisTooltipId !== currentTooltipId) { return; }
  categoryOrder.forEach(categoryName => {
      if (categorizedTags[categoryName].size > 0) { ... tagsContainer.appendChild(section); }
  });
  globalTooltip.style.display = "block";
  currentClickHandler = (e) => { ... };
  \<close>
\<close>

definition tooltipResume :: "hover \<Rightarrow> (string \<times> string) list \<Rightarrow> gallery \<Rightarrow> gallery" where
  "tooltipResume h translations s =
     (if thisTooltipId h \<noteq> currentTooltipId s then s
      else s\<lparr>tooltipSections :=
                tooltipSections s @
                map (\<lambda>cat. TagSection cat (map (tagSpanText translations) (categorizedTags (h_post h) cat)))
                    (filter (\<lambda>cat. categorizedTags (h_post h) cat \<noteq> []) categories),
              tooltipDisplay := True,
              tooltipClickHandlers := h_wrapper h # removeAll (h_wrapper h) (tooltipClickHandlers s)\<rparr>)"

text \<open>
  The \<^verbatim>\<open>mouseenter\<close> handler of the cell \<open>w\<close> showing post \<open>p\<close>, up to its fetch:
  \<^verbatim>\<open>
  if (!uiSettings.tooltip_enabled) return;
  currentTooltipId++;
  const thisTooltipId = currentTooltipId;
  ... tagsContainer.innerHTML = ''; ... tagsContainer.appendChild(detailsSection); ...
  let translations = {};
  if (globalMultiLanguageManager.getLanguage() === 'zh') {
      try {
          if (allTags.length > 0) {
              const response = await fetch('/danbooru_gallery/translate_tags_batch', ...);
              const data = await response.json();
              if (data.success) translations = data.translations;
          }
      } catch (error) { }
  }
  \<close>
  When no fetch is issued the handler runs on to its end at once.
\<close>

definition mouseenter :: "nat \<Rightarrow> post \<Rightarrow> gallery \<Rightarrow> gallery" where
  "mouseenter w p s =
     (if \<not> tooltip_enabled s then s
      else (let s1 = s\<lparr>currentTooltipId := currentTooltipId s + 1\<rparr>;
                h = \<lparr>thisTooltipId = currentTooltipId s1, h_post = p, h_wrapper = w\<rparr>;
                s2 = s1\<lparr>tooltipSections := [DetailsSection p]\<rparr>
            in if language_zh s2 \<and> allTagsOf p \<noteq> []
               then s2\<lparr>requests := requests s2 @ [TranslateBatch (allTagsOf p)],
                       inflight := inflight s2 @ [h]\<rparr>
               else tooltipResume h [] s2))"

text \<open>
  The fetch of the handler that captured \<open>tok\<close> completes with \<open>translations\<close> (the
  empty table when the call failed or reported no success), and the handler resumes.
\<close>

definition fetchDone :: "nat \<Rightarrow> (string \<times> string) list \<Rightarrow> gallery \<Rightarrow> gallery" where
  "fetchDone tok translations s =
     (case find (\<lambda>h. thisTooltipId h = tok) (inflight s) of
        None \<Rightarrow> s
      | Some h \<Rightarrow>
          tooltipResume h translations
            (s\<lparr>inflight := filter (\<lambda>h'. thisTooltipId h' \<noteq> tok) (inflight s)\<rparr>))"

text \<open>
  \<^verbatim>\<open>
  wrapper.addEventListener("mouseleave", () => {
      currentTooltipId++;
      globalTooltip.style.display = "none";
      if (currentClickHandler) { document.removeEventListener('click', currentClickHandler); currentClickHandler = null; }
  });
  \<close>
\<close>

definition mouseleave :: "nat \<Rightarrow> gallery \<Rightarrow> gallery" where
  "mouseleave w s =
     s\<lparr>currentTooltipId := currentTooltipId s + 1, tooltipDisplay := False,
       tooltipClickHandlers := removeAll w (tooltipClickHandlers s)\<rparr>"

text \<open>What the user and the network can do to the tooltip, one event at a time: hovering
  a cell, leaving it, a fetch completing, a change of the tooltip or language setting, and
  the tooltip being hidden by a click elsewhere or by a change of rating.\<close>

datatype event =
    MouseEnter nat post
  | MouseLeave nat
  | FetchDone nat "(string \<times> string) list"
  | SetTooltipEnabled bool
  | SetLanguageZh bool
  | HideTooltip

fun step :: "event \<Rightarrow> gallery \<Rightarrow> gallery" where
  "step (MouseEnter w p) s = mouseenter w p s"
| "step (MouseLeave w) s = mouseleave w s"
| "step (FetchDone tok translations) s = fetchDone tok translations s"
| "step (SetTooltipEnabled b) s = s\<lparr>tooltip_enabled := b\<rparr>"
| "step (SetLanguageZh b) s = s\<lparr>language_zh := b\<rparr>"
| "step HideTooltip s = s\<lparr>tooltipDisplay := False\<rparr>"

definition run :: "event list \<Rightarrow> gallery \<Rightarrow> gallery" where
  "run es s = foldl (\<lambda>st ev. step ev st) s es"

text \<open>What the user sees of the tooltip.\<close>

definition tooltipUI :: "gallery \<Rightarrow> tip_section list \<times> bool \<times> nat list" where
  "tooltipUI s = (tooltipSections s, tooltipDisplay s, tooltipClickHandlers s)"

section \<open>Example data\<close>

text \<open>A post as the remote source returns it, and a gallery that has loaded and rendered
  it with the default settings; then the same gallery after the user has added the tag
  \<^verbatim>\<open>c\<close> to the general tags in the edit panel and closed the panel.\<close>

definition examplePost :: post where
  "examplePost =
     \<lparr>post_id = 7, preview_file_url = Str ''p.jpg'', file_url = Str ''f.jpg'',
      large_file_url = Absent, file_ext = Str ''jpg'', tag_string = Str ''b a x'',
      tag_string_artist = Str ''x'', tag_string_copyright = Str '''',
      tag_string_character = Null, tag_string_general = Str ''b a'',
      tag_string_meta = Absent\<rparr>"

definition exampleGallery :: gallery where
  "exampleGallery =
     \<lparr>posts = [examplePost], currentPage = 2, isLoading = False,
      filterState = \<lparr>startTime = None, endTime = None, startPage = None\<rparr>,
      temporaryTagEdits = Map.empty, originalPostCache = [7 \<mapsto> examplePost],
      currentTooltipId = 0, currentBlacklist = [], currentFilterTags = [],
      filterEnabled = True, tooltip_enabled = True, multi_select_enabled = False,
      language_zh = True, networkConnected = True, searchInput = ''a, b, c, d'',
      ratingValue = [], selectedCategories = [Copyright, Character, General],
      escapeBrackets = True, replaceUnderscores = True,
      wrappers = [\<lparr>w_postId = 7, selected = False, edited_indicator = False\<rparr>],
      gridLoading = False, gridMessage = None, refreshLoading = False, errorDisplay = False,
      tagHint = None, toasts = [], selection_data = EmptyObject, selectionCount = None,
      filter_data = \<lparr>startTime = None, endTime = None, startPage = None\<rparr>,
      storedFilterData = None, filterButtonActive = False, tooltipSections = [],
      tooltipDisplay = False, tooltipClickHandlers = [], inflight = [], requests = []\<rparr>"

definition editedGallery :: gallery where
  "editedGallery =
     exampleGallery\<lparr>posts := [examplePost\<lparr>tag_string_general := Str ''b a c''\<rparr>],
                    temporaryTagEdits := [7 \<mapsto> examplePost\<lparr>tag_string_general := Str ''b a c''\<rparr>]\<rparr>"

text \<open>A post with no \<^verbatim>\<open>file_ext\<close> whose URL has no extension, and the answers of the
  outside world during one page load: the network is up, the search returns the two
  posts, and the platform's \<^verbatim>\<open>Date\<close> is that of a browser in the UTC time zone, given on
  the inputs used below.\<close>

definition noExtPost :: post where
  "noExtPost = examplePost\<lparr>post_id := 8, file_ext := Absent, file_url := Str ''http://localhost/img''\<rparr>"

definition exampleEnv :: env where
  "exampleEnv =
     \<lparr>network_reply = True, posts_reply = ReplyPosts [examplePost, noExtPost],
      toISODate = (\<lambda>x. Some (take 10 x)),
      dateValue = (\<lambda>x. if x = ''2024-01-01T00:00'' then Some 1704067200000
                        else if x = ''2024-01-02T00:00'' then Some 1704153600000
                        else None)\<rparr>"

section \<open>Properties of the diff engine\<close>

lemma compareTagStrings_falsy:
  "\<not> truthy a \<Longrightarrow> compareTagStrings a b = (\<not> truthy b)"
  "\<not> truthy b \<Longrightarrow> compareTagStrings a b = (\<not> truthy a)"
  by (simp_all add: compareTagStrings_def)

lemma nth_eq_list_all:
  "length xs = length ys \<Longrightarrow> list_all (\<lambda>i. xs ! i = ys ! i) [0..<length xs] = (xs = ys)"
proof -
  assume len: "length xs = length ys"
  have "list_all (\<lambda>i. xs ! i = ys ! i) [0..<length xs] = (\<forall>i<length xs. xs ! i = ys ! i)"
    by (auto simp add: list_all_iff)
  also have "\<dots> = (xs = ys)"
    using len by (auto intro: nth_equalityI)
  finally show ?thesis .
qed

lemma sort_eq_iff_mset: "(sort xs = sort ys) = (mset xs = mset ys)"
proof
  assume "sort xs = sort ys"
  then have "mset (sort xs) = mset (sort ys)" by simp
  then show "mset xs = mset ys" by simp
next
  assume "mset xs = mset ys"
  then show "sort xs = sort ys"
    by (simp add: properties_for_sort)
qed

text \<open>On two non-empty strings the comparison is the equality of the token multisets.\<close>

lemma compareTagStrings_Str:
  "s1 \<noteq> [] \<Longrightarrow> s2 \<noteq> [] \<Longrightarrow>
   compareTagStrings (Str s1) (Str s2) = (mset (tagTokens s1) = mset (tagTokens s2))"
proof -
  assume ne: "s1 \<noteq> []" "s2 \<noteq> []"
  have "compareTagStrings (Str s1) (Str s2) = (sortedTags s1 = sortedTags s2)"
  proof (cases "length (sortedTags s1) = length (sortedTags s2)")
    case True
    then show ?thesis
      using ne nth_eq_list_all [OF True] by (simp add: compareTagStrings_def Let_def)
  next
    case False
    then show ?thesis
      using ne by (auto simp add: compareTagStrings_def Let_def)
  qed
  also have "\<dots> = (mset (tagTokens s1) = mset (tagTokens s2))"
    by (simp add: sortedTags_def sort_eq_iff_mset)
  finally show ?thesis .
qed

lemma compareTagStrings_perm:
  assumes "mset (tagTokens s') = mset (tagTokens s)" and "(s' = []) = (s = [])"
  shows "compareTagStrings v (Str s') = compareTagStrings v (Str s)"
proof (cases "truthy v \<and> s \<noteq> []")
  case True
  then obtain a where v: "v = Str a" "a \<noteq> []" by (cases v) auto
  from True assms have "s' \<noteq> []" by simp
  with True v assms show ?thesis by (simp add: compareTagStrings_Str)
next
  case False
  show ?thesis
  proof (cases "truthy v")
    case True
    with False assms have "s = []" "s' = []" by simp_all
    then show ?thesis by simp
  next
    case nt: False
    then show ?thesis using assms by (simp add: compareTagStrings_falsy)
  qed
qed


lemma tag_string_cat_set_same: "tag_string_cat c (set_tag_string_cat c v e) = v"
  by (cases c) simp_all

lemma tag_string_cat_set_other:
  "c \<noteq> d \<Longrightarrow> tag_string_cat c (set_tag_string_cat d v e) = tag_string_cat c e"
  by (cases c; cases d) simp_all

lemma tag_string_set_cat: "tag_string (set_tag_string_cat d v e) = tag_string e"
  by (cases d) simp_all

text \<open>The edited status when one category string of the working copy is replaced by a
  string with the same tokens.\<close>

lemma isTrulyEdited_same_tokens:
  assumes cur: "tag_string_cat cat e = Str s"
    and perm: "mset (tagTokens s') = mset (tagTokens s)"
    and emp: "(s' = []) = (s = [])"
  shows "isTrulyEdited orig (Some (set_tag_string_cat cat (Str s') e)) = isTrulyEdited orig (Some e)"
proof (cases orig)
  case None
  then show ?thesis by (simp add: isTrulyEdited_def)
next
  case (Some p)
  let ?e' = "set_tag_string_cat cat (Str s') e"
  have own: "hasOwnProperty (tag_string_cat c ?e') = hasOwnProperty (tag_string_cat c e)" for c
    using cur by (cases "c = cat") (simp_all add: tag_string_cat_set_same tag_string_cat_set_other)
  have cmp: "compareTagStrings (tag_string_cat c p) (tag_string_cat c ?e')
           = compareTagStrings (tag_string_cat c p) (tag_string_cat c e)" for c
  proof (cases "c = cat")
    case True
    then show ?thesis
      using compareTagStrings_perm [OF perm emp] cur by (simp only: tag_string_cat_set_same)
  next
    case False
    then show ?thesis by (simp add: tag_string_cat_set_other)
  qed
  show ?thesis
    unfolding isTrulyEdited_def Some
    by (simp add: own cmp tag_string_set_cat)
qed

lemma splitWs_token:
  "\<forall>c \<in> set t. \<not> isSpace c \<Longrightarrow> splitWs cur (t @ r) = splitWs (cur @ t) r"
  by (induction t arbitrary: cur) simp_all

lemma join_Cons: "join sep (t # ts) = (if ts = [] then t else t @ sep @ join sep ts)"
  by (cases ts) simp_all

lemma join_starts:
  assumes "ts \<noteq> []" and "\<forall>t \<in> set ts. t \<noteq> [] \<and> (\<forall>c \<in> set t. \<not> isSpace c)"
  shows "\<exists>c cs. join sep ts = c # cs \<and> \<not> isSpace c"
proof -
  from assms obtain t us where ts: "ts = t # us" by (cases ts) auto
  with assms obtain c cs where t: "t = c # cs" "\<not> isSpace c" by (cases t) auto
  then show ?thesis by (simp add: ts join_Cons)
qed

lemma splitWs_join:
  assumes "\<forall>t \<in> set ts. t \<noteq> [] \<and> (\<forall>c \<in> set t. \<not> isSpace c)" and "ts \<noteq> []"
  shows "splitWs [] (join '' '' ts) = ts"
  using assms
proof (induction ts)
  case Nil
  then show ?case by simp
next
  case (Cons t ts)
  then have tok: "\<forall>c \<in> set t. \<not> isSpace c" by simp
  show ?case
  proof (cases "ts = []")
    case True
    then show ?thesis
      using splitWs_token [OF tok, of "[]" "[]"] by simp
  next
    case False
    from Cons.prems have wf: "\<forall>t \<in> set ts. t \<noteq> [] \<and> (\<forall>c \<in> set t. \<not> isSpace c)" by simp
    from join_starts [OF False wf, of "'' ''"] obtain c cs where
      j: "join '' '' ts = c # cs" "\<not> isSpace c" by blast
    have "splitWs [] (join '' '' (t # ts)) = splitWs t (CHR '' '' # join '' '' ts)"
      using False splitWs_token [OF tok, of "[]" "CHR '' '' # join '' '' ts"] by (simp add: join_Cons)
    also have "\<dots> = t # splitWs [] (join '' '' ts)"
      using j by (simp add: isSpace_def)
    also have "\<dots> = t # ts"
      using Cons.IH [OF wf False] by simp
    finally show ?thesis .
  qed
qed

lemma join_ends:
  assumes "ts \<noteq> []" and "\<forall>t \<in> set ts. t \<noteq> [] \<and> (\<forall>c \<in> set t. \<not> isSpace c)"
  shows "join sep ts \<noteq> [] \<and> \<not> isSpace (last (join sep ts))"
  using assms
proof (induction ts)
  case Nil
  then show ?case by simp
next
  case (Cons t ts)
  show ?case
  proof (cases "ts = []")
    case True
    with Cons.prems show ?thesis by simp
  next
    case False
    with Cons have "join sep ts \<noteq> [] \<and> \<not> isSpace (last (join sep ts))" by simp
    with False show ?thesis by (simp add: join_Cons)
  qed
qed

lemma trim_join:
  assumes "\<forall>t \<in> set ts. t \<noteq> [] \<and> (\<forall>c \<in> set t. \<not> isSpace c)"
  shows "trim (join '' '' ts) = join '' '' ts"
proof (cases "ts = []")
  case True
  then show ?thesis by (simp add: trim_def)
next
  case False
  from join_starts [OF False assms, of "'' ''"] obtain c cs where
    j: "join '' '' ts = c # cs" "\<not> isSpace c" by blast
  from join_ends [OF False assms, of "'' ''"] have
    e: "join '' '' ts \<noteq> []" "\<not> isSpace (last (join '' '' ts))" by simp_all
  have d: "dropWhile isSpace (join '' '' ts) = join '' '' ts"
    using j by simp
  have "dropWhile isSpace (rev (join '' '' ts)) = rev (join '' '' ts)"
    using e by (cases "rev (join '' '' ts)") (auto simp add: last_rev hd_rev [symmetric] last_conv_nth rev_nth)
  then show ?thesis
    by (simp add: trim_def d)
qed

lemma tagTokens_join:
  assumes "\<forall>t \<in> set ts. t \<noteq> [] \<and> (\<forall>c \<in> set t. \<not> isSpace c)"
  shows "tagTokens (join '' '' ts) = ts"
proof (cases "ts = []")
  case True
  then show ?thesis by (simp add: tagTokens_def trim_def)
next
  case False
  have "filter (\<lambda>t. t \<noteq> []) ts = ts"
    using assms by (simp add: filter_id_conv)
  then show ?thesis
    using splitWs_join [OF assms False] by (simp add: tagTokens_def trim_join [OF assms])
qed

lemma join_empty_iff:
  assumes "\<forall>t \<in> set ts. t \<noteq> [] \<and> (\<forall>c \<in> set t. \<not> isSpace c)"
  shows "(join '' '' ts = []) = (ts = [])"
  using join_ends [OF _ assms, of "'' ''"] by (cases "ts = []") auto

text \<open>A category string written as tokens joined by single spaces: its tokens are the
  listed ones, so any reordering of the list meets the assumptions of the lemma above.\<close>

lemma edited_status_join_permutation:
  assumes cur: "tag_string_cat cat e = Str (join '' '' ts)"
    and perm: "mset ts' = mset ts"
    and wf: "\<forall>t \<in> set ts. t \<noteq> [] \<and> (\<forall>c \<in> set t. \<not> isSpace c)"
  shows "isTrulyEdited orig (Some (set_tag_string_cat cat (Str (join '' '' ts')) e))
           = isTrulyEdited orig (Some e)"
proof -
  have wf': "\<forall>t \<in> set ts'. t \<noteq> [] \<and> (\<forall>c \<in> set t. \<not> isSpace c)"
    using wf mset_eq_setD [OF perm] by simp
  have tokens: "mset (tagTokens (join '' '' ts')) = mset (tagTokens (join '' '' ts))"
    using perm by (simp add: tagTokens_join [OF wf] tagTokens_join [OF wf'])
  have "(ts' = []) = (ts = [])"
    using perm by (metis mset_zero_iff)
  then have empty: "(join '' '' ts' = []) = (join '' '' ts = [])"
    by (simp add: join_empty_iff [OF wf] join_empty_iff [OF wf'])
  show ?thesis
    using cur tokens empty by (rule isTrulyEdited_same_tokens)
qed

lemma tagTokens_Nil: "tagTokens [] = []"
  by (simp add: tagTokens_def trim_def)

text \<open>
  The comparison on values without tokens. A value that is missing, \<^verbatim>\<open>null\<close>, empty or
  made of whitespace differs from every string that has a token; two non-empty strings
  of whitespace are equal; and a non-empty string of whitespace differs from a missing,
  \<^verbatim>\<open>null\<close> or empty value.
\<close>

lemma compareTagStrings_blank_vs_tokens:
  assumes blank: "\<not> truthy v \<or> (\<exists>s. v = Str s \<and> tagTokens s = [])"
    and tokens: "tagTokens t \<noteq> []"
  shows "\<not> compareTagStrings v (Str t) \<and> \<not> compareTagStrings (Str t) v"
proof (cases "truthy v")
  case False
  have tt: "truthy (Str t)"
    using tokens tagTokens_Nil by (cases t) simp_all
  have a: "compareTagStrings v (Str t) = (\<not> truthy (Str t))"
    using False by (rule compareTagStrings_falsy(1))
  have b: "compareTagStrings (Str t) v = (\<not> truthy (Str t))"
    using False by (rule compareTagStrings_falsy(2))
  show ?thesis
    unfolding a b using tt by simp
next
  case True
  with blank obtain s where v: "v = Str s" and none: "tagTokens s = []" by blast
  from True v have s: "s \<noteq> []" by simp
  have t: "t \<noteq> []"
    using tokens tagTokens_Nil by (cases t) simp_all
  have "mset (tagTokens s) \<noteq> mset (tagTokens t)"
    unfolding none using tokens by simp
  then show ?thesis
    unfolding v compareTagStrings_Str [OF s t] compareTagStrings_Str [OF t s] by simp
qed

lemma compareTagStrings_blank_blank:
  "s \<noteq> [] \<Longrightarrow> s' \<noteq> [] \<Longrightarrow> tagTokens s = [] \<Longrightarrow> tagTokens s' = [] \<Longrightarrow>
   compareTagStrings (Str s) (Str s')"
  by (simp add: compareTagStrings_Str)

lemma compareTagStrings_blank_empty:
  "s \<noteq> [] \<Longrightarrow> \<not> truthy v \<Longrightarrow> \<not> compareTagStrings (Str s) v \<and> \<not> compareTagStrings v (Str s)"
  by (simp add: compareTagStrings_falsy)

text \<open>
  C5. \<^verbatim>\<open>compareTagStrings\<close> at the inputs where it departs from "null, the empty
  string and a whitespace-only string are mutually equal": the empty string and
  \<^verbatim>\<open>null\<close> are each reported as different from the string of one space, although two
  whitespace-only strings are reported as equal and \<^verbatim>\<open>null\<close> equals the empty string.
\<close>

theorem compareTagStrings_blank_vs_empty:
  "compareTagStrings (Str '''') (Str '' '') = False \<and>
   compareTagStrings Null (Str '' '') = False \<and>
   compareTagStrings (Str '' '') (Str ''   '') = True \<and>
   compareTagStrings Null (Str '''') = True"
  by (simp add: compareTagStrings_def sortedTags_def tagTokens_def trim_def isSpace_def)

theorem compareTagStrings_blank_vs_empty_witness:
  "\<not> compareTagStrings (Str '''') (Str '' '') \<and> \<not> compareTagStrings Null (Str '' '')"
  using compareTagStrings_blank_vs_empty by simp

text \<open>
  C7. Reordering the tokens of one category string of the working copy does not change
  the edited status. The working copy \<open>e\<close> holds the string \<open>s\<close> in category \<open>cat\<close>;
  \<open>s'\<close> is any string with the same tokens in another order, and \<open>orig\<close> is the entry
  of the original snapshot cache. A rearrangement of tokens turns neither an empty string
  into a non-empty one nor the reverse, which is the third assumption; it is needed
  because the comparison tells the empty string from a string of spaces.
\<close>

theorem edited_status_order_independent:
  assumes cur: "tag_string_cat cat e = Str s"
    and perm: "mset (tagTokens s') = mset (tagTokens s)"
    and emp: "(s' = []) = (s = [])"
  shows "isTrulyEdited orig (Some (set_tag_string_cat cat (Str s') e)) = isTrulyEdited orig (Some e)"
  using cur perm emp by (rule isTrulyEdited_same_tokens)

theorem edited_status_order_independent_witness:
  "tag_string_cat General examplePost = Str ''b a'' \<and>
   mset (tagTokens ''a b'') = mset (tagTokens ''b a'') \<and>
   isTrulyEdited (Some examplePost) (Some (set_tag_string_cat General (Str ''a b'') examplePost))
     = isTrulyEdited (Some examplePost) (Some examplePost)"
proof -
  have h1: "tag_string_cat General examplePost = Str ''b a''"
    by (simp add: examplePost_def)
  have h2: "mset (tagTokens ''a b'') = mset (tagTokens ''b a'')"
    by (simp add: tagTokens_def trim_def isSpace_def)
  have h3: "(''a b'' = []) = (''b a'' = [])" by simp
  show ?thesis
    using h1 h2 edited_status_order_independent [OF h1 h2 h3, of "Some examplePost"] by simp
qed

section \<open>Properties of the edit overlay\<close>

lemma findIndex_SomeD: "findIndex P xs = Some i \<Longrightarrow> i < length xs \<and> P (xs ! i)"
  by (induction xs arbitrary: i) (auto split: if_splits option.splits)

lemma findIndex_map: "findIndex (\<lambda>w. f w = k) xs = findIndex (\<lambda>v. v = k) (map f xs)"
  by (induction xs) auto

lemma isTrulyEdited_no_copy: "isTrulyEdited orig None = False"
  by (simp add: isTrulyEdited_def)


lemma map_update_same: "i < length xs \<Longrightarrow> (map f xs)[i := f (xs ! i)] = map f xs"
  by (simp add: list_update_same_conv)

lemma refreshEditedIndicator_frame:
  "posts (refreshEditedIndicator a b s) = posts s"
  "temporaryTagEdits (refreshEditedIndicator a b s) = temporaryTagEdits s"
  "originalPostCache (refreshEditedIndicator a b s) = originalPostCache s"
  "map w_postId (wrappers (refreshEditedIndicator a b s)) = map w_postId (wrappers s)"
  "length (wrappers (refreshEditedIndicator a b s)) = length (wrappers s)"
  by (auto simp: refreshEditedIndicator_def updateEditedStatus_def Let_def map_update map_update_same
           dest: findIndex_SomeD split: option.splits)

lemma refreshEditedIndicator_sets:
  "findIndex (\<lambda>w. w_postId w = a) (wrappers s) = Some i \<Longrightarrow>
   edited_indicator (wrappers (refreshEditedIndicator a b s) ! i)
     = isTrulyEdited (originalPostCache s b) (temporaryTagEdits s b)"
  by (auto simp: refreshEditedIndicator_def updateEditedStatus_def Let_def dest: findIndex_SomeD)


text \<open>
  C6. When the original snapshot of the post \<open>p\<close> of the open panel is cached, the reset
  handler leaves the gallery in a state where the edited status of \<open>p\<close> is false: the
  working copy is gone, the snapshot cache is as before, the entry of \<open>p\<close> in the post
  list (when there is one) holds the contents of the snapshot, and the first grid cell of
  \<open>p\<close> carries no "edited" indicator.
\<close>

theorem reset_clears_edited_status:
  assumes cached: "originalPostCache s (post_id p) = Some orig"
  shows "let s' = resetTags fetched p s in
           isTrulyEdited (originalPostCache s' (post_id p)) (temporaryTagEdits s' (post_id p)) = False \<and>
           temporaryTagEdits s' = (temporaryTagEdits s)(post_id p := None) \<and>
           originalPostCache s' = originalPostCache s \<and>
           length (posts s') = length (posts s) \<and>
           (\<forall>i. findIndex (\<lambda>q. post_id q = post_id p) (posts s) = Some i \<longrightarrow> posts s' ! i = orig) \<and>
           (\<forall>i. post_id orig = post_id p \<and>
                findIndex (\<lambda>w. w_postId w = post_id p) (wrappers s) = Some i
                \<longrightarrow> \<not> edited_indicator (wrappers s' ! i))"
proof -
  define ps1 where "ps1 = (case findIndex (\<lambda>q. post_id q = post_id p) (posts s) of
                        Some postIndex \<Rightarrow> (posts s)[postIndex := orig]
                      | None \<Rightarrow> posts s)"
  define s1 where "s1 = s\<lparr>posts := ps1, temporaryTagEdits := (temporaryTagEdits s)(post_id p := None)\<rparr>"
  define s2 where "s2 = refreshEditedIndicator (post_id orig) (post_id orig) s1"
  define s3 where "s3 = refreshEditedIndicator (post_id p) (post_id orig) s2"
  define s' where "s' = resetTags fetched p s"
  have s': "s' = showToast MsgResetDone ToastSuccess
                  (s3\<lparr>selection_data := Single (promptOf s3 orig) (js_or (file_url orig) (large_file_url orig))\<rparr>)"
    using cached by (simp add: s'_def resetTags_def Let_def s3_def s2_def s1_def ps1_def)
  have edits: "temporaryTagEdits s' = (temporaryTagEdits s)(post_id p := None)"
    by (simp add: s' showToast_def s3_def s2_def refreshEditedIndicator_frame s1_def)
  have orig: "originalPostCache s' = originalPostCache s"
    by (simp add: s' showToast_def s3_def s2_def refreshEditedIndicator_frame s1_def)
  have posts: "posts s' = ps1"
    by (simp add: s' showToast_def s3_def s2_def refreshEditedIndicator_frame s1_def)
  have len: "length (posts s') = length (posts s)"
    by (simp add: posts ps1_def split: option.splits)
  have repl: "posts s' ! i = orig" if "findIndex (\<lambda>q. post_id q = post_id p) (posts s) = Some i" for i
    using that findIndex_SomeD [OF that] by (simp add: posts ps1_def)
  have ind: "\<not> edited_indicator (wrappers s' ! i)"
    if same: "post_id orig = post_id p" and f: "findIndex (\<lambda>w. w_postId w = post_id p) (wrappers s) = Some i" for i
  proof -
    have "findIndex (\<lambda>w. w_postId w = post_id p) (wrappers s2) = Some i"
      using f by (simp add: findIndex_map [of w_postId] s2_def refreshEditedIndicator_frame s1_def)
    then have "edited_indicator (wrappers s3 ! i)
                 = isTrulyEdited (originalPostCache s2 (post_id orig)) (temporaryTagEdits s2 (post_id orig))"
      unfolding s3_def by (rule refreshEditedIndicator_sets)
    also have "\<dots> = False"
      using same by (simp add: s2_def refreshEditedIndicator_frame s1_def isTrulyEdited_no_copy)
    finally show ?thesis by (simp add: s' showToast_def)
  qed
  have status: "isTrulyEdited (originalPostCache s' (post_id p)) (temporaryTagEdits s' (post_id p)) = False"
    by (simp add: edits isTrulyEdited_no_copy)
  show ?thesis
    unfolding Let_def s'_def [symmetric]
    using status edits orig len repl ind by blast
qed

theorem reset_clears_edited_status_witness:
  "originalPostCache editedGallery (post_id examplePost) = Some examplePost \<and>
   isTrulyEdited (originalPostCache (resetTags None examplePost editedGallery) (post_id examplePost))
                 (temporaryTagEdits (resetTags None examplePost editedGallery) (post_id examplePost)) = False"
proof -
  have h: "originalPostCache editedGallery (post_id examplePost) = Some examplePost"
    by (simp add: editedGallery_def exampleGallery_def examplePost_def)
  show ?thesis
    using h reset_clears_edited_status [OF h, of None] unfolding Let_def by blast
qed



section \<open>Properties of the page load and the filters\<close>

lemma renderPost_posts: "posts (renderPost p s) = posts s"
  by (simp add: renderPost_def createPostElement_def Let_def split: prod.splits option.splits)

lemma foldl_renderPost_posts: "posts (foldl (\<lambda>st p. renderPost p st) s ps) = posts s"
  by (induction ps arbitrary: s) (simp_all add: renderPost_posts)

lemma loadPage_posts:
  "\<exists>kept. posts (loadPage e reset s) = posts s @ kept \<and>
          set kept \<subseteq> {p. \<not> isPostFiltered s p}"
proof -
  have bl: "isPostFiltered (s\<lparr>tagHint := h, requests := r\<rparr>) = isPostFiltered s" for h r
    by (simp add: fun_eq_iff isPostFiltered_def isPostBlacklisted_def)
  have bl2: "isPostFiltered (s\<lparr>tagHint := h\<rparr>\<lparr>requests := r\<rparr>) = isPostFiltered s" for h r
    by (simp add: fun_eq_iff isPostFiltered_def isPostBlacklisted_def)
  show ?thesis
    unfolding loadPage_def Let_def
    by (auto simp add: gridShowOnly_def foldl_renderPost_posts bl bl2
             split: option.splits posts_reply.splits)
qed


lemma isPostFiltered_cong:
  "currentBlacklist s' = currentBlacklist s \<Longrightarrow> isPostFiltered s' = isPostFiltered s"
  by (simp add: fun_eq_iff isPostFiltered_def isPostBlacklisted_def)

lemma fetchAndRender_posts:
  "\<exists>kept. posts (fetchAndRender e reset s) = (if isLoading s \<or> \<not> reset then posts s else []) @ kept \<and>
          set kept \<subseteq> {p. \<not> isPostFiltered s p}"
proof (cases "isLoading s \<or> \<not> network_reply e")
  case True
  then show ?thesis
    by (auto simp add: fetchAndRender_def Let_def gridShowOnly_def)
next
  case False
  define s3 where "s3 = (if reset
              then s\<lparr>isLoading := True, refreshLoading := True, gridLoading := True,
                     currentPage := (case startPage (filterState s) of
                                       Some n \<Rightarrow> if n \<noteq> 0 then n else 1 | None \<Rightarrow> 1),
                     posts := [], wrappers := [], gridMessage := None\<rparr>
              else s\<lparr>isLoading := True, refreshLoading := True, gridLoading := True\<rparr>)
             \<lparr>requests := requests s @ [CheckNetwork], networkConnected := True, errorDisplay := False\<rparr>"
  have eq: "fetchAndRender e reset s =
            (loadPage e reset s3)\<lparr>isLoading := False, refreshLoading := False, gridLoading := False\<rparr>"
    using False by (simp add: fetchAndRender_def Let_def s3_def)
  have bl: "isPostFiltered s3 = isPostFiltered s"
    by (rule isPostFiltered_cong) (simp add: s3_def)
  have base: "posts s3 = (if isLoading s \<or> \<not> reset then posts s else [])"
    using False by (simp add: s3_def)
  from loadPage_posts [of e reset s3] obtain kept where
    "posts (loadPage e reset s3) = posts s3 @ kept" "set kept \<subseteq> {p. \<not> isPostFiltered s3 p}"
    by blast
  then show ?thesis
    unfolding eq bl base by auto
qed

lemma not_valid_without_extension:
  assumes ext: "\<not> truthy (file_ext p)"
    and url: "\<not> truthy (file_url p) \<or> (\<exists>u. file_url p = Str u \<and> extMatch (toLowerCase u) = None)"
  shows "\<not> isValidImageType p"
  using ext url by (auto simp add: isValidImageType_def)

text \<open>
  C10. The file-type filter denies by default. A post with no usable \<^verbatim>\<open>file_ext\<close>
  (missing, \<^verbatim>\<open>null\<close> or empty) and either no usable \<^verbatim>\<open>file_url\<close> or a URL in which the
  extension pattern finds nothing is not a valid image type, is filtered, and is not among
  the posts that a page load appends to the post list, whatever the search returns.
\<close>

theorem untyped_post_never_cached:
  assumes ext: "\<not> truthy (file_ext p)"
    and url: "\<not> truthy (file_url p) \<or> (\<exists>u. file_url p = Str u \<and> extMatch (toLowerCase u) = None)"
  shows "\<not> isValidImageType p \<and> isPostFiltered s p \<and>
         (\<exists>kept. posts (fetchAndRender e reset s)
                   = (if isLoading s \<or> \<not> reset then posts s else []) @ kept \<and>
                 p \<notin> set kept)"
proof -
  have nv: "\<not> isValidImageType p" using ext url by (rule not_valid_without_extension)
  then have f: "isPostFiltered s p" by (simp add: isPostFiltered_def)
  from fetchAndRender_posts [of e reset s] obtain kept where
    k: "posts (fetchAndRender e reset s) = (if isLoading s \<or> \<not> reset then posts s else []) @ kept"
       "set kept \<subseteq> {p. \<not> isPostFiltered s p}"
    by blast
  from k(2) f have "p \<notin> set kept" by blast
  with nv f k(1) show ?thesis by blast
qed

theorem untyped_post_never_cached_witness:
  "\<not> truthy (file_ext noExtPost) \<and>
   file_url noExtPost = Str ''http://localhost/img'' \<and>
   extMatch (toLowerCase ''http://localhost/img'') = None \<and>
   isPostFiltered exampleGallery noExtPost \<and>
   posts (fetchAndRender exampleEnv True exampleGallery) = [examplePost]"
proof -
  have h1: "\<not> truthy (file_ext noExtPost)"
    by (simp add: noExtPost_def)
  have h2: "file_url noExtPost = Str ''http://localhost/img''"
    by (simp add: noExtPost_def)
  have h3: "extMatch (toLowerCase ''http://localhost/img'') = None"
    by (simp add: toLowerCase_def lowerChar_def extStop_def)
  have h: "\<not> truthy (file_url noExtPost) \<or>
           (\<exists>u. file_url noExtPost = Str u \<and> extMatch (toLowerCase u) = None)"
    using h2 h3 by simp
  have run: "posts (fetchAndRender exampleEnv True exampleGallery) = [examplePost]"
    using conjunct1 [OF untyped_post_never_cached [OF h1 h, of exampleGallery exampleEnv True]]
    by (simp add: fetchAndRender_def loadPage_def tagsParameter_def exampleEnv_def exampleGallery_def
          Let_def isPostFiltered_def isPostBlacklisted_def truthyOpt_def split_def trim_def isSpace_def
          renderPost_def createPostElement_def examplePost_def isValidImageType_def
          toLowerCase_def lowerChar_def allowedImageExtensions_def noExtPost_def)
  show ?thesis
    using h1 h2 h3 run untyped_post_never_cached [OF h1 h, of exampleGallery exampleEnv True]
    by blast
qed


text \<open>
  C3. A page load requested while \<^verbatim>\<open>isLoading\<close> is set returns at once: the whole state
  is as before, so no network request is logged and the post list, the page cursor and
  the filter state are unchanged.
\<close>

theorem fetchAndRender_noop_while_loading:
  assumes "isLoading s"
  shows "fetchAndRender e reset s = s \<and>
         requests (fetchAndRender e reset s) = requests s \<and>
         posts (fetchAndRender e reset s) = posts s \<and>
         currentPage (fetchAndRender e reset s) = currentPage s \<and>
         filterState (fetchAndRender e reset s) = filterState s"
  using assms by (simp add: fetchAndRender_def)

theorem fetchAndRender_noop_while_loading_witness:
  "isLoading (exampleGallery\<lparr>isLoading := True\<rparr>) \<and>
   requests (fetchAndRender exampleEnv True (exampleGallery\<lparr>isLoading := True\<rparr>)) = [] \<and>
   posts (fetchAndRender exampleEnv True (exampleGallery\<lparr>isLoading := True\<rparr>)) = [examplePost]"
proof -
  have h: "isLoading (exampleGallery\<lparr>isLoading := True\<rparr>)" by simp
  show ?thesis
    using fetchAndRender_noop_while_loading [OF h, of exampleEnv True]
    by (simp add: exampleGallery_def)
qed

lemma renderPost_frame:
  "requests (renderPost p s) = requests s"
  "tagHint (renderPost p s) = tagHint s"
  by (simp_all add: renderPost_def createPostElement_def Let_def split: prod.splits option.splits)

lemma foldl_renderPost_frame:
  "requests (foldl (\<lambda>st p. renderPost p st) s ps) = requests s"
  "tagHint (foldl (\<lambda>st p. renderPost p st) s ps) = tagHint s"
  by (induction ps arbitrary: s) (simp_all add: renderPost_frame)

lemma convertTagsToApiFormat_all:
  "convertTagsToApiFormat sv =
     join '' '' (map convertTag (filter (\<lambda>tag. trim tag \<noteq> []) (split CHR '','' sv)))"
  by (simp add: convertTagsToApiFormat_def split_def trim_def)

lemma loadPage_request:
  assumes tp: "tagsParameter e s = Some tagsParam"
  shows "requests (loadPage e reset s) =
           requests s @ [PostsQuery \<lparr>q_tags = tagsParam, q_rating = ratingValue s,
                                     q_limit = ''100'', q_page = currentPage s\<rparr>]"
    and "tagHint (loadPage e reset s) =
           (if length (filter (\<lambda>tag. trim tag \<noteq> []) (split CHR '','' (trim (searchInput s)))) > 2
            then Some MsgTagLimit else None)"
proof -
  have tp': "tagsParameter e (s\<lparr>tagHint := h\<rparr>) = Some tagsParam" for h
    using tp by (auto simp add: tagsParameter_def Let_def split: option.splits)
  show "requests (loadPage e reset s) =
           requests s @ [PostsQuery \<lparr>q_tags = tagsParam, q_rating = ratingValue s,
                                     q_limit = ''100'', q_page = currentPage s\<rparr>]"
    unfolding loadPage_def Let_def
    by (simp add: tp' gridShowOnly_def foldl_renderPost_frame split: posts_reply.splits)
  show "tagHint (loadPage e reset s) =
           (if length (filter (\<lambda>tag. trim tag \<noteq> []) (split CHR '','' (trim (searchInput s)))) > 2
            then Some MsgTagLimit else None)"
    unfolding loadPage_def Let_def
    by (simp add: tp' gridShowOnly_def foldl_renderPost_frame split: posts_reply.splits)
qed

text \<open>
  C4, as the code has it. When the search input holds more than two comma-separated
  tags, an idle page load with the network up (and a date filter, if any, that converts)
  shows the hint and issues the search all the same; the tag parameter of that search is
  built from every tag of the input, each converted by \<^verbatim>\<open>convertTagsToApiFormat\<close>, joined by
  spaces and followed by the date filter. No tag is dropped.
\<close>

theorem over_limit_query_keeps_all_tags:
  assumes idle: "\<not> isLoading s"
    and net: "network_reply e"
    and tags: "tags = filter (\<lambda>tag. trim tag \<noteq> []) (split CHR '','' (trim (searchInput s)))"
    and over: "length tags > 2"
    and start: "isoOrEmpty e (startTime (filterState s)) = Some a"
    and end': "isoOrEmpty e (endTime (filterState s)) = Some b"
  shows "let s' = fetchAndRender e reset s in
           tagHint s' = Some MsgTagLimit \<and>
           requests s' = requests s @
             [CheckNetwork,
              PostsQuery
                \<lparr>q_tags = trim (join '' '' (map convertTag tags) @
                             (if truthyOpt (startTime (filterState s)) \<or> truthyOpt (endTime (filterState s))
                              then '' date:'' @ a @ ''..'' @ b else [])),
                 q_rating = ratingValue s, q_limit = ''100'',
                 q_page = (if reset
                           then (case startPage (filterState s) of
                                   Some n \<Rightarrow> if n \<noteq> 0 then n else 1 | None \<Rightarrow> 1)
                           else currentPage s)\<rparr>]"
proof -
  define s3 where "s3 = (if reset
              then s\<lparr>isLoading := True, refreshLoading := True, gridLoading := True,
                     currentPage := (case startPage (filterState s) of
                                       Some n \<Rightarrow> if n \<noteq> 0 then n else 1 | None \<Rightarrow> 1),
                     posts := [], wrappers := [], gridMessage := None\<rparr>
              else s\<lparr>isLoading := True, refreshLoading := True, gridLoading := True\<rparr>)
             \<lparr>requests := requests s @ [CheckNetwork], networkConnected := True, errorDisplay := False\<rparr>"
  define tp where "tp = trim (join '' '' (map convertTag tags) @
                             (if truthyOpt (startTime (filterState s)) \<or> truthyOpt (endTime (filterState s))
                              then '' date:'' @ a @ ''..'' @ b else []))"
  have eq: "fetchAndRender e reset s =
            (loadPage e reset s3)\<lparr>isLoading := False, refreshLoading := False, gridLoading := False\<rparr>"
    using idle net by (simp add: fetchAndRender_def Let_def s3_def)
  have fs: "filterState s3 = filterState s" "searchInput s3 = searchInput s"
           "ratingValue s3 = ratingValue s" "requests s3 = requests s @ [CheckNetwork]"
    by (simp_all add: s3_def)
  have cp: "currentPage s3 = (if reset
                           then (case startPage (filterState s) of
                                   Some n \<Rightarrow> if n \<noteq> 0 then n else 1 | None \<Rightarrow> 1)
                           else currentPage s)"
    by (simp add: s3_def)
  have tparam: "tagsParameter e s3 = Some tp"
    using start end' by (simp add: tagsParameter_def Let_def fs convertTagsToApiFormat_all tags tp_def)
  have req: "requests (fetchAndRender e reset s) = requests s @
             [CheckNetwork, PostsQuery \<lparr>q_tags = tp, q_rating = ratingValue s, q_limit = ''100'',
                                        q_page = currentPage s3\<rparr>]"
    unfolding eq using loadPage_request(1) [OF tparam, of reset] by (simp add: fs)
  have hint: "tagHint (fetchAndRender e reset s) = Some MsgTagLimit"
    unfolding eq using loadPage_request(2) [OF tparam, of reset] over by (simp add: fs tags)
  show ?thesis
    unfolding Let_def using hint req by (simp add: tp_def cp)
qed

theorem over_limit_query_keeps_all_tags_witness:
  "\<not> isLoading exampleGallery \<and> network_reply exampleEnv \<and>
   filter (\<lambda>tag. trim tag \<noteq> []) (split CHR '','' (trim (searchInput exampleGallery)))
     = [''a'', '' b'', '' c'', '' d''] \<and>
   tagHint (fetchAndRender exampleEnv True exampleGallery) = Some MsgTagLimit \<and>
   requests (fetchAndRender exampleEnv True exampleGallery) =
     [CheckNetwork,
      PostsQuery \<lparr>q_tags = ''a b c d'', q_rating = [], q_limit = ''100'', q_page = 1\<rparr>]"
proof -
  have h1: "\<not> isLoading exampleGallery" by (simp add: exampleGallery_def)
  have h2: "network_reply exampleEnv" by (simp add: exampleEnv_def)
  have h3: "[''a'', '' b'', '' c'', '' d'']
              = filter (\<lambda>tag. trim tag \<noteq> []) (split CHR '','' (trim (searchInput exampleGallery)))"
    by (simp add: exampleGallery_def split_def trim_def isSpace_def)
  have h4: "length [''a'', '' b'', '' c'', '' d''] > 2" by simp
  have h5: "isoOrEmpty exampleEnv (startTime (filterState exampleGallery)) = Some []"
    by (simp add: isoOrEmpty_def exampleGallery_def)
  have h6: "isoOrEmpty exampleEnv (endTime (filterState exampleGallery)) = Some []"
    by (simp add: isoOrEmpty_def exampleGallery_def)
  have f: "filterState exampleGallery = \<lparr>startTime = None, endTime = None, startPage = None\<rparr>"
          "requests exampleGallery = []" "ratingValue exampleGallery = []"
    by (simp_all add: exampleGallery_def)
  show ?thesis
    using h1 h2 h3 [symmetric]
      over_limit_query_keeps_all_tags [OF h1 h2 h3 h4 h5 h6, of True]
    by (simp add: Let_def f truthyOpt_def convertTag_def trim_def isSpace_def)
qed

text \<open>C4 as stated fails: for the input \<^verbatim>\<open>a, b, c, d\<close> the tag parameter of the search is
  \<^verbatim>\<open>a b c d\<close>, not \<^verbatim>\<open>a b\<close>.\<close>

theorem over_limit_query_counterexample:
  "filter (\<lambda>tag. trim tag \<noteq> []) (split CHR '','' (trim ''a, b, c, d'')) = [''a'', '' b'', '' c'', '' d''] \<and>
   searchInput exampleGallery = ''a, b, c, d'' \<and>
   requests (fetchAndRender exampleEnv True exampleGallery) =
     [CheckNetwork,
      PostsQuery \<lparr>q_tags = ''a b c d'', q_rating = [], q_limit = ''100'', q_page = 1\<rparr>] \<and>
   ''a b c d'' \<noteq> ''a b''"
  by (simp add: fetchAndRender_def loadPage_def tagsParameter_def exampleEnv_def exampleGallery_def
          Let_def isPostFiltered_def isPostBlacklisted_def truthyOpt_def split_def trim_def isSpace_def
          renderPost_def createPostElement_def examplePost_def isValidImageType_def
          toLowerCase_def lowerChar_def allowedImageExtensions_def noExtPost_def
          convertTagsToApiFormat_def convertTag_def)

section \<open>Properties of the selection projector\<close>

lemma buildPromptForPost_wrappers:
  "buildPromptForPost (s\<lparr>wrappers := ws\<rparr>) p = buildPromptForPost s p"
  by (simp add: buildPromptForPost_def promptOf_def Let_def cong: if_cong)

lemma selectionOf_cong:
  "selectionOf (s\<lparr>wrappers := ws\<rparr>) = selectionOf s"
  "selectionOf s (w\<lparr>selected := b\<rparr>) = selectionOf s w"
  by (auto simp add: fun_eq_iff selectionOf_def Let_def buildPromptForPost_wrappers
           split: option.splits)

lemma filter_map_upt_single:
  assumes i: "i < n" and others: "\<And>j. j < n \<Longrightarrow> j \<noteq> i \<Longrightarrow> \<not> P (f j)"
  shows "filter P (map f [0..<n]) = (if P (f i) then [f i] else [])"
proof -
  have split: "[0..<n] = [0..<i] @ i # [Suc i..<n]"
    using i by (metis le_add_diff_inverse less_imp_le_nat upt_add_eq_append upt_conv_Cons zero_le
        le_add1 less_or_eq_imp_le nat_less_le)
  have a: "filter P (map f [0..<i]) = []"
    using i others by (auto simp add: filter_empty_conv)
  have b: "filter P (map f [Suc i..<n]) = []"
    using others by (auto simp add: filter_empty_conv)
  show ?thesis
    unfolding split using a b by simp
qed

lemma single_select_click_wrappers:
  assumes i: "i < length ws"
  shows "filter selected
           ((map (\<lambda>j. if j \<noteq> i then (ws ! j)\<lparr>selected := False\<rparr> else ws ! j) [0..<length ws])
              [i := (map (\<lambda>j. if j \<noteq> i then (ws ! j)\<lparr>selected := False\<rparr> else ws ! j) [0..<length ws] ! i)
                      \<lparr>selected := \<not> selected (ws ! i)\<rparr>])
         = (if selected (ws ! i) then [] else [(ws ! i)\<lparr>selected := True\<rparr>])"
proof -
  let ?f = "\<lambda>j. if j \<noteq> i then (ws ! j)\<lparr>selected := False\<rparr> else (ws ! i)\<lparr>selected := \<not> selected (ws ! i)\<rparr>"
  have "(map (\<lambda>j. if j \<noteq> i then (ws ! j)\<lparr>selected := False\<rparr> else ws ! j) [0..<length ws])
              [i := (map (\<lambda>j. if j \<noteq> i then (ws ! j)\<lparr>selected := False\<rparr> else ws ! j) [0..<length ws] ! i)
                      \<lparr>selected := \<not> selected (ws ! i)\<rparr>]
        = map ?f [0..<length ws]"
    using i by (auto intro!: nth_equalityI simp add: nth_list_update)
  moreover have "filter selected (map ?f [0..<length ws]) = (if selected (?f i) then [?f i] else [])"
    by (rule filter_map_upt_single [OF i]) simp
  ultimately show ?thesis by simp
qed

text \<open>
  C1, as the code has it. In single-select mode a click on the image of a grid cell
  writes an object of the shape \<^verbatim>\<open>{selections: [...]}\<close> to the widget, never \<^verbatim>\<open>{}\<close> and
  never \<^verbatim>\<open>{prompt, image_url}\<close>: the list is empty when the click deselects the cell, and
  when the click selects it the list holds the one entry \<^verbatim>\<open>{post_id, prompt, image_url}\<close> of
  the cell's post (no entry when the post is neither in the post list nor in the overlay).
\<close>

theorem single_select_click_payload:
  assumes single: "\<not> multi_select_enabled s" and i: "i < length (wrappers s)"
  shows "selection_data (imgClick i s)
           = Selections (if selected (wrappers s ! i) then [] else selectionOf s (wrappers s ! i)) \<and>
         length (selectionOf s (wrappers s ! i)) \<le> 1 \<and>
         selection_data (imgClick i s) \<noteq> EmptyObject \<and>
         (\<forall>prompt url. selection_data (imgClick i s) \<noteq> Single prompt url)"
proof -
  define ws where "ws = wrappers s"
  define ws1 where "ws1 = map (\<lambda>j. if j \<noteq> i then (ws ! j)\<lparr>selected := False\<rparr> else ws ! j) [0..<length ws]"
  define ws2 where "ws2 = ws1[i := (ws1 ! i)\<lparr>selected := \<not> selected (ws ! i)\<rparr>]"
  have click: "imgClick i s = updateSelectionData (s\<lparr>wrappers := ws2\<rparr>)"
    using single i unfolding imgClick_def Let_def ws2_def ws1_def ws_def by simp
  have sel: "filter selected ws2 = (if selected (ws ! i) then [] else [(ws ! i)\<lparr>selected := True\<rparr>])"
    unfolding ws2_def ws1_def using i by (simp only: ws_def [symmetric] single_select_click_wrappers)
  have "selection_data (imgClick i s)
          = Selections (concat (map (selectionOf s) (filter selected ws2)))"
    by (simp add: click updateSelectionData_def updateSelectionCount_def Let_def selectionOf_cong)
  then have "selection_data (imgClick i s)
           = Selections (if selected (wrappers s ! i) then [] else selectionOf s (wrappers s ! i))"
    by (simp add: sel selectionOf_cong ws_def)
  moreover have "length (selectionOf s (wrappers s ! i)) \<le> 1"
    by (simp add: selectionOf_def Let_def split: option.splits)
  ultimately show ?thesis by simp
qed

theorem single_select_click_payload_witness:
  "\<not> multi_select_enabled exampleGallery \<and> 0 < length (wrappers exampleGallery) \<and>
   selection_data (imgClick 0 exampleGallery)
     = Selections [\<lparr>sel_post_id = 7, sel_prompt = ''b, a'', sel_image_url = Str ''f.jpg''\<rparr>]"
proof -
  have h1: "\<not> multi_select_enabled exampleGallery" by (simp add: exampleGallery_def)
  have h2: "0 < length (wrappers exampleGallery)" by (simp add: exampleGallery_def)
  have e: "selectionOf exampleGallery (wrappers exampleGallery ! 0)
             = [\<lparr>sel_post_id = 7, sel_prompt = ''b, a'', sel_image_url = Str ''f.jpg''\<rparr>]"
    by (simp add: selectionOf_def buildPromptForPost_def promptOf_def exampleGallery_def
          examplePost_def Let_def splitTruthy_def split_def js_or_def replaceUnderscore_def
          escapeParens_def)
  have u: "\<not> selected (wrappers exampleGallery ! 0)" by (simp add: exampleGallery_def)
  show ?thesis
    using h1 h2 conjunct1 [OF single_select_click_payload [OF h1 h2]] by (simp add: e u)
qed

text \<open>C1 as stated fails: in single-select mode a click that selects post 7 writes
  \<^verbatim>\<open>{selections: [{post_id: 7, ...}]}\<close>, and a second click, after which nothing is
  selected, writes \<^verbatim>\<open>{selections: []}\<close>.\<close>

theorem single_select_click_counterexample:
  "multi_select_enabled exampleGallery = False \<and>
   selection_data (imgClick 0 exampleGallery)
     = Selections [\<lparr>sel_post_id = 7, sel_prompt = ''b, a'', sel_image_url = Str ''f.jpg''\<rparr>] \<and>
   selection_data (imgClick 0 exampleGallery) \<noteq> Single ''b, a'' (Str ''f.jpg'') \<and>
   filter selected (wrappers (imgClick 0 (imgClick 0 exampleGallery))) = [] \<and>
   selection_data (imgClick 0 (imgClick 0 exampleGallery)) = Selections [] \<and>
   selection_data (imgClick 0 (imgClick 0 exampleGallery)) \<noteq> EmptyObject"
  by (simp add: imgClick_def updateSelectionData_def updateSelectionCount_def
        selectionOf_def buildPromptForPost_def promptOf_def exampleGallery_def
        examplePost_def Let_def splitTruthy_def split_def js_or_def replaceUnderscore_def
        escapeParens_def)

section \<open>Properties of the tooltip\<close>

lemma tooltipResume_frame:
  "currentTooltipId (tooltipResume h tr s) = currentTooltipId s"
  "inflight (tooltipResume h tr s) = inflight s"
  "tooltip_enabled (tooltipResume h tr s) = tooltip_enabled s"
  by (simp_all add: tooltipResume_def)

lemma tooltipResume_stale:
  "thisTooltipId h \<noteq> currentTooltipId s \<Longrightarrow> tooltipResume h tr s = s"
  by (simp add: tooltipResume_def)

lemma fetchDone_stale:
  assumes "tok \<noteq> currentTooltipId s"
  shows "fetchDone tok tr s = s \<or>
         fetchDone tok tr s = s\<lparr>inflight := filter (\<lambda>h'. thisTooltipId h' \<noteq> tok) (inflight s)\<rparr>"
proof (cases "find (\<lambda>h. thisTooltipId h = tok) (inflight s)")
  case None
  then show ?thesis by (simp add: fetchDone_def)
next
  case (Some h)
  then have "thisTooltipId h = tok" by (auto simp add: find_Some_iff)
  with assms Some show ?thesis
    by (simp add: fetchDone_def tooltipResume_stale)
qed

lemma fetchDone_stale_ui:
  "tok \<noteq> currentTooltipId s \<Longrightarrow> tooltipUI (fetchDone tok tr s) = tooltipUI s"
  using fetchDone_stale [of tok s tr] by (auto simp add: tooltipUI_def)

lemma fetchDone_frame:
  "currentTooltipId (fetchDone tok tr s) = currentTooltipId s"
  "set (inflight (fetchDone tok tr s)) \<subseteq> set (inflight s)"
  by (auto simp add: fetchDone_def tooltipResume_frame split: option.splits)

lemma mouseenter_token:
  "currentTooltipId (mouseenter w p s) = (if tooltip_enabled s then currentTooltipId s + 1 else currentTooltipId s)"
  by (simp add: mouseenter_def Let_def tooltipResume_frame)

lemma mouseenter_inflight:
  "h \<in> set (inflight (mouseenter w p s)) \<Longrightarrow>
   h \<in> set (inflight s) \<or> thisTooltipId h = currentTooltipId (mouseenter w p s)"
  by (auto simp add: mouseenter_def Let_def tooltipResume_frame split: if_splits)

lemma step_mono: "currentTooltipId s \<le> currentTooltipId (step ev s)"
  by (cases ev) (simp_all add: mouseenter_token mouseleave_def fetchDone_frame)

lemma step_tokens:
  assumes inv: "\<forall>h \<in> set (inflight s). thisTooltipId h \<le> currentTooltipId s"
  shows "\<forall>h \<in> set (inflight (step ev s)). thisTooltipId h \<le> currentTooltipId (step ev s)"
proof (cases ev)
  case (MouseEnter w p)
  show ?thesis
  proof
    fix h assume "h \<in> set (inflight (step ev s))"
    then have "h \<in> set (inflight s) \<or> thisTooltipId h = currentTooltipId (mouseenter w p s)"
      using MouseEnter mouseenter_inflight by simp
    then show "thisTooltipId h \<le> currentTooltipId (step ev s)"
      using inv step_mono [of s ev] MouseEnter by (auto intro: order_trans)
  qed
next
  case (MouseLeave w)
  with inv show ?thesis by (auto simp add: mouseleave_def intro: le_SucI)
next
  case (FetchDone tok tr)
  with inv fetchDone_frame [of tok tr s] show ?thesis by auto
next
  case (SetTooltipEnabled b)
  with inv show ?thesis by simp
next
  case (SetLanguageZh b)
  with inv show ?thesis by simp
next
  case HideTooltip
  with inv show ?thesis by simp
qed

lemma run_snoc: "run (es @ [ev]) s = step ev (run es s)"
  by (simp add: run_def)

lemma run_mono: "currentTooltipId s \<le> currentTooltipId (run es s)"
proof (induction es rule: rev_induct)
  case Nil
  then show ?case by (simp add: run_def)
next
  case (snoc ev es)
  then show ?case
    using step_mono [of "run es s" ev] by (simp add: run_snoc)
qed

lemma run_tokens:
  assumes "\<forall>h \<in> set (inflight s). thisTooltipId h \<le> currentTooltipId s"
  shows "\<forall>h \<in> set (inflight (run es s)). thisTooltipId h \<le> currentTooltipId (run es s)"
proof (induction es rule: rev_induct)
  case Nil
  with assms show ?case by (simp add: run_def)
next
  case (snoc ev es)
  then show ?case
    unfolding run_snoc by (rule step_tokens)
qed

text \<open>
  C2, as the code has it. The gallery starts with no fetch in flight and goes through any
  events \<open>es0\<close>, after which the fetch of a hover \<open>hA\<close> on a cell A is outstanding. Then
  \<^item> if the pointer enters a cell B while the tooltip setting is on, then after any
    further events \<open>es\<close> the completion of A's fetch leaves the tooltip as it is: its
    sections, its visibility and its click handlers. (With the setting off the handler of
    B returns at \<^verbatim>\<open>if (!uiSettings.tooltip_enabled) return;\<close>, before the token is raised, and
    the statement does not hold: see the counterexample below.)
  \<^item> the same holds after the pointer leaves a cell, and leaving a cell raises the global
    token by one whatever the settings are;
  \<^item> in any state, a handler whose captured token is not the global token returns
    without changing anything.
\<close>

theorem stale_hover_never_renders:
  assumes clean: "inflight s0 = []"
    and pending: "hA \<in> set (inflight (run es0 s0))"
  shows "(tooltip_enabled (run es0 s0) \<longrightarrow>
            tooltipUI (fetchDone (thisTooltipId hA) tr (run es (mouseenter wB pB (run es0 s0))))
              = tooltipUI (run es (mouseenter wB pB (run es0 s0)))) \<and>
         tooltipUI (fetchDone (thisTooltipId hA) tr (run es (mouseleave w (run es0 s0))))
           = tooltipUI (run es (mouseleave w (run es0 s0))) \<and>
         currentTooltipId (mouseleave w (run es0 s0)) = currentTooltipId (run es0 s0) + 1 \<and>
         (thisTooltipId h \<noteq> currentTooltipId s \<longrightarrow> tooltipResume h tr s = s)"
proof -
  define sA where "sA = run es0 s0"
  have "\<forall>h \<in> set (inflight s0). thisTooltipId h \<le> currentTooltipId s0"
    using clean by simp
  then have "\<forall>h \<in> set (inflight sA). thisTooltipId h \<le> currentTooltipId sA"
    unfolding sA_def by (rule run_tokens)
  with pending have old: "thisTooltipId hA \<le> currentTooltipId sA"
    by (simp add: sA_def)
  have enter: "tooltipUI (fetchDone (thisTooltipId hA) tr (run es (mouseenter wB pB sA)))
              = tooltipUI (run es (mouseenter wB pB sA))" if "tooltip_enabled sA"
  proof -
    have "currentTooltipId (mouseenter wB pB sA) = currentTooltipId sA + 1"
      using that by (simp add: mouseenter_token)
    with old run_mono [of "mouseenter wB pB sA" es]
    have "thisTooltipId hA \<noteq> currentTooltipId (run es (mouseenter wB pB sA))" by simp
    then show ?thesis by (rule fetchDone_stale_ui)
  qed
  have leave: "tooltipUI (fetchDone (thisTooltipId hA) tr (run es (mouseleave w sA)))
              = tooltipUI (run es (mouseleave w sA))"
  proof -
    have "currentTooltipId (mouseleave w sA) = currentTooltipId sA + 1"
      by (simp add: mouseleave_def)
    with old run_mono [of "mouseleave w sA" es]
    have "thisTooltipId hA \<noteq> currentTooltipId (run es (mouseleave w sA))" by simp
    then show ?thesis by (rule fetchDone_stale_ui)
  qed
  have inc: "currentTooltipId (mouseleave w sA) = currentTooltipId sA + 1"
    by (simp add: mouseleave_def)
  show ?thesis
    unfolding sA_def [symmetric]
    using enter leave inc tooltipResume_stale by blast
qed


theorem stale_hover_never_renders_witness:
  "inflight exampleGallery = [] \<and>
   \<lparr>thisTooltipId = 1, h_post = examplePost, h_wrapper = 0\<rparr>
      \<in> set (inflight (run [MouseEnter 0 examplePost] exampleGallery)) \<and>
   tooltip_enabled (run [MouseEnter 0 examplePost] exampleGallery) \<and>
   tooltipUI (fetchDone 1 [(''a'', ''A'')]
                (run [] (mouseenter 1 noExtPost (run [MouseEnter 0 examplePost] exampleGallery))))
     = tooltipUI (run [] (mouseenter 1 noExtPost (run [MouseEnter 0 examplePost] exampleGallery)))"
proof -
  have h1: "inflight exampleGallery = []" by (simp add: exampleGallery_def)
  have tags: "allTagsOf examplePost = [''x'', ''b'', ''a'']"
    by (simp add: allTagsOf_def categorizedTags_def ownTags_def setAddAll_def splitTruthy_def
          split_def categories_def examplePost_def)
  have st: "run [MouseEnter 0 examplePost] exampleGallery
            = exampleGallery\<lparr>currentTooltipId := 1, tooltipSections := [DetailsSection examplePost],
                requests := [TranslateBatch [''x'', ''b'', ''a'']],
                inflight := [\<lparr>thisTooltipId = 1, h_post = examplePost, h_wrapper = 0\<rparr>]\<rparr>"
    by (simp add: run_def mouseenter_def Let_def tags) (simp add: exampleGallery_def)
  have h2: "\<lparr>thisTooltipId = 1, h_post = examplePost, h_wrapper = 0\<rparr>
      \<in> set (inflight (run [MouseEnter 0 examplePost] exampleGallery))"
    by (simp add: st)
  have h3: "tooltip_enabled (run [MouseEnter 0 examplePost] exampleGallery)"
    by (simp add: st) (simp add: exampleGallery_def)
  show ?thesis
    using h1 h2 h3
      stale_hover_never_renders [OF h1 h2, of "[(''a'', ''A'')]" "[]" 1 noExtPost]
    by simp
qed

text \<open>
  C2 as stated fails. The pointer enters cell 0 with the tooltip setting on, and the fetch
  for its post is issued with token 1. The setting is switched off and the pointer enters
  cell 1 with no \<^verbatim>\<open>mouseleave\<close> of cell 0 in between (the cell was removed from the page
  under the pointer, or the setting was changed from the keyboard). The handler of cell 1
  returns at its first line, the global token is still 1, and when the fetch of cell 0
  completes its tags are painted and the tooltip is shown while the pointer is on cell 1.
\<close>

theorem stale_hover_counterexample:
  "inflight exampleGallery = [] \<and>
   \<lparr>thisTooltipId = 1, h_post = examplePost, h_wrapper = 0\<rparr>
      \<in> set (inflight (run [MouseEnter 0 examplePost, SetTooltipEnabled False] exampleGallery)) \<and>
   currentTooltipId (mouseenter 1 noExtPost
        (run [MouseEnter 0 examplePost, SetTooltipEnabled False] exampleGallery)) = 1 \<and>
   tooltipUI (mouseenter 1 noExtPost
        (run [MouseEnter 0 examplePost, SetTooltipEnabled False] exampleGallery))
     = ([DetailsSection examplePost], False, []) \<and>
   tooltipUI (fetchDone 1 []
        (mouseenter 1 noExtPost
           (run [MouseEnter 0 examplePost, SetTooltipEnabled False] exampleGallery)))
     = ([DetailsSection examplePost, TagSection Artist [''x''], TagSection General [''b'', ''a'']],
        True, [0])"
  by (simp add: run_def mouseenter_def fetchDone_def tooltipResume_def tooltipUI_def Let_def
        allTagsOf_def categorizedTags_def ownTags_def setAddAll_def splitTruthy_def
        split_def categories_def examplePost_def exampleGallery_def tagSpanText_def)

text \<open>The completion of the latest hover does render: the tooltip is shown with the
  translated tags.\<close>

lemma fresh_completion_renders:
  "tooltipDisplay (fetchDone 1 [(''a'', ''A'')] (run [MouseEnter 0 examplePost] exampleGallery)) \<and>
   tooltipSections (fetchDone 1 [(''a'', ''A'')] (run [MouseEnter 0 examplePost] exampleGallery))
     = [DetailsSection examplePost, TagSection Artist [''x''], TagSection General [''b'', ''a [A]'']]"
  by (simp add: run_def mouseenter_def fetchDone_def tooltipResume_def Let_def
        allTagsOf_def categorizedTags_def ownTags_def setAddAll_def splitTruthy_def
        split_def categories_def examplePost_def exampleGallery_def tagSpanText_def)

section \<open>Properties of the filter dialog\<close>

declare natDigits.simps [simp del]

lemma isDigit_not_sign: "isDigit c \<Longrightarrow> \<not> isSpace c \<and> c \<noteq> CHR ''-'' \<and> c \<noteq> CHR ''+''"
  by (auto simp add: isDigit_def isSpace_def)

lemma isDigit_char_of: "d < 10 \<Longrightarrow> isDigit (char_of (48 + (d::nat)))"
  by (simp add: isDigit_def)

lemma natDigits_digits: "natDigits n \<noteq> [] \<and> list_all isDigit (natDigits n)"
proof (induction n rule: natDigits.induct)
  case (1 n)
  show ?case
  proof (cases "n < 10")
    case True
    then show ?thesis by (simp add: natDigits.simps [of n] isDigit_char_of)
  next
    case False
    with 1 show ?thesis by (simp add: natDigits.simps [of n] isDigit_char_of)
  qed
qed

lemma digitsValue_snoc: "digitsValue (ds @ [c]) = 10 * digitsValue ds + (of_char c - 48)"
  by (simp add: digitsValue_def)

lemma digitsValue_natDigits: "digitsValue (natDigits n) = n"
proof (induction n rule: natDigits.induct)
  case (1 n)
  show ?case
  proof (cases "n < 10")
    case True
    then show ?thesis by (simp add: natDigits.simps [of n] digitsValue_def)
  next
    case False
    with 1 show ?thesis
      by (simp add: natDigits.simps [of n] digitsValue_snoc)
  qed
qed

lemma takeWhile_all: "list_all P xs \<Longrightarrow> takeWhile P xs = xs"
  by (induction xs) auto

lemma parseInt_decimal: "parseInt (decimal n) = Some n"
proof -
  obtain c cs where ds: "natDigits (nat \<bar>n\<bar>) = c # cs"
    using natDigits_digits [of "nat \<bar>n\<bar>"] by (cases "natDigits (nat \<bar>n\<bar>)") auto
  have all: "list_all isDigit (c # cs)"
    using natDigits_digits [of "nat \<bar>n\<bar>"] ds by simp
  then have c: "isDigit c" by simp
  have tw: "takeWhile isDigit (c # cs) = c # cs"
    using all by (rule takeWhile_all)
  have val: "digitsValue (c # cs) = nat \<bar>n\<bar>"
    using digitsValue_natDigits [of "nat \<bar>n\<bar>"] ds by simp
  show ?thesis
  proof (cases "n < 0")
    case True
    then have "decimal n = CHR ''-'' # c # cs"
      using ds by (simp add: decimal_def abs_if)
    then show ?thesis
      using True val by (simp add: parseInt_def isSpace_def Let_def tw del: takeWhile.simps)
  next
    case False
    then have "decimal n = c # cs"
      using ds by (simp add: decimal_def abs_if)
    then show ?thesis
      using False val isDigit_not_sign [OF c]
      by (simp add: parseInt_def Let_def tw del: takeWhile.simps)
  qed
qed

text \<open>
  C9. When the time filter is selected and both times are given with the end before the
  start, or when the page filter is selected and the page field holds the numeral of an
  integer that is zero or negative, "apply" shows an error toast and does nothing else:
  the filter state, the filter widget, the stored filter and the request log are as
  before, and no page load is started.
\<close>

theorem invalid_filter_rejected:
  assumes invalid:
    "(selectedType inp = ByTime \<and> startTimeInput inp \<noteq> [] \<and> endTimeInput inp \<noteq> [] \<and>
      dateValue e (startTimeInput inp) = Some b \<and> dateValue e (endTimeInput inp) = Some f \<and> f < b)
     \<or> (selectedType inp = ByPage \<and> startPageInput inp = decimal n \<and> n \<le> 0)"
  shows "(\<exists>m. applyFilter e inp s = s\<lparr>toasts := toasts s @ [(m, ToastError)]\<rparr>) \<and>
         filterState (applyFilter e inp s) = filterState s \<and>
         filter_data (applyFilter e inp s) = filter_data s \<and>
         storedFilterData (applyFilter e inp s) = storedFilterData s \<and>
         requests (applyFilter e inp s) = requests s"
proof -
  have "\<exists>m. applyFilter e inp s = s\<lparr>toasts := toasts s @ [(m, ToastError)]\<rparr>"
    using invalid
  proof
    assume t: "selectedType inp = ByTime \<and> startTimeInput inp \<noteq> [] \<and> endTimeInput inp \<noteq> [] \<and>
      dateValue e (startTimeInput inp) = Some b \<and> dateValue e (endTimeInput inp) = Some f \<and> f < b"
    then have "applyFilter e inp s = s\<lparr>toasts := toasts s @ [(MsgEndBeforeStart, ToastError)]\<rparr>"
      by (simp add: applyFilter_def Let_def dateAfter_def showError_def showToast_def)
    then show ?thesis by blast
  next
    assume p: "selectedType inp = ByPage \<and> startPageInput inp = decimal n \<and> n \<le> 0"
    have ne: "decimal n \<noteq> []"
      using natDigits_digits by (simp add: decimal_def)
    from p have "applyFilter e inp s = s\<lparr>toasts := toasts s @ [(MsgStartPageInvalid, ToastError)]\<rparr>"
      by (simp add: applyFilter_def Let_def parseInt_decimal ne showError_def showToast_def)
    then show ?thesis by blast
  qed
  then obtain m where eq: "applyFilter e inp s = s\<lparr>toasts := toasts s @ [(m, ToastError)]\<rparr>" by blast
  show ?thesis
    unfolding eq by auto
qed

theorem invalid_filter_rejected_witness:
  "dateValue exampleEnv ''2024-01-02T00:00'' = Some 1704153600000 \<and>
   dateValue exampleEnv ''2024-01-01T00:00'' = Some 1704067200000 \<and>
   filterState (applyFilter exampleEnv
      \<lparr>selectedType = ByTime, startTimeInput = ''2024-01-02T00:00'',
        endTimeInput = ''2024-01-01T00:00'', startPageInput = []\<rparr> exampleGallery)
     = filterState exampleGallery \<and>
   decimal (- 3) = ''-3'' \<and>
   filterState (applyFilter exampleEnv
      \<lparr>selectedType = ByPage, startTimeInput = [], endTimeInput = [], startPageInput = ''-3''\<rparr>
      exampleGallery)
     = filterState exampleGallery"
proof -
  have d1: "dateValue exampleEnv ''2024-01-02T00:00'' = Some 1704153600000"
    and d2: "dateValue exampleEnv ''2024-01-01T00:00'' = Some 1704067200000"
    by (simp_all add: exampleEnv_def)
  have d3: "decimal (- 3) = ''-3''"
    by code_simp
  have t: "(selectedType \<lparr>selectedType = ByTime, startTimeInput = ''2024-01-02T00:00'',
        endTimeInput = ''2024-01-01T00:00'', startPageInput = []\<rparr> = ByTime \<and>
      startTimeInput \<lparr>selectedType = ByTime, startTimeInput = ''2024-01-02T00:00'',
        endTimeInput = ''2024-01-01T00:00'', startPageInput = []\<rparr> \<noteq> [] \<and>
      endTimeInput \<lparr>selectedType = ByTime, startTimeInput = ''2024-01-02T00:00'',
        endTimeInput = ''2024-01-01T00:00'', startPageInput = []\<rparr> \<noteq> [] \<and>
      dateValue exampleEnv (startTimeInput \<lparr>selectedType = ByTime, startTimeInput = ''2024-01-02T00:00'',
        endTimeInput = ''2024-01-01T00:00'', startPageInput = []\<rparr>) = Some 1704153600000 \<and>
      dateValue exampleEnv (endTimeInput \<lparr>selectedType = ByTime, startTimeInput = ''2024-01-02T00:00'',
        endTimeInput = ''2024-01-01T00:00'', startPageInput = []\<rparr>) = Some 1704067200000 \<and>
      (1704067200000::int) < 1704153600000)
     \<or> (selectedType \<lparr>selectedType = ByTime, startTimeInput = ''2024-01-02T00:00'',
        endTimeInput = ''2024-01-01T00:00'', startPageInput = []\<rparr> = ByPage \<and>
      startPageInput \<lparr>selectedType = ByTime, startTimeInput = ''2024-01-02T00:00'',
        endTimeInput = ''2024-01-01T00:00'', startPageInput = []\<rparr> = decimal 0 \<and> (0::int) \<le> 0)"
    using d1 d2 by simp
  have p: "(selectedType \<lparr>selectedType = ByPage, startTimeInput = [], endTimeInput = [],
               startPageInput = ''-3''\<rparr> = ByTime \<and>
      startTimeInput \<lparr>selectedType = ByPage, startTimeInput = [], endTimeInput = [],
               startPageInput = ''-3''\<rparr> \<noteq> [] \<and>
      endTimeInput \<lparr>selectedType = ByPage, startTimeInput = [], endTimeInput = [],
               startPageInput = ''-3''\<rparr> \<noteq> [] \<and>
      dateValue exampleEnv (startTimeInput \<lparr>selectedType = ByPage, startTimeInput = [], endTimeInput = [],
               startPageInput = ''-3''\<rparr>) = Some 0 \<and>
      dateValue exampleEnv (endTimeInput \<lparr>selectedType = ByPage, startTimeInput = [], endTimeInput = [],
               startPageInput = ''-3''\<rparr>) = Some 0 \<and> (0::int) < 0)
     \<or> (selectedType \<lparr>selectedType = ByPage, startTimeInput = [], endTimeInput = [],
               startPageInput = ''-3''\<rparr> = ByPage \<and>
      startPageInput \<lparr>selectedType = ByPage, startTimeInput = [], endTimeInput = [],
               startPageInput = ''-3''\<rparr> = decimal (- 3) \<and> (- 3::int) \<le> 0)"
    using d3 by simp
  show ?thesis
    using d1 d2 d3
      invalid_filter_rejected [OF t, of exampleGallery]
      invalid_filter_rejected [OF p, of exampleGallery]
    by simp
qed

end
